theory Spec2Isabelle
  imports Main "HOL-Library.Sublist" "HOL-Library.Word"
begin

section \<open>JavaScript strings\<close>

text \<open>
  A JavaScript string is a sequence of UTF-16 code units. A code unit is modelled by its
  number; \<open>js\<close> turns an ASCII literal into the code units it stands for.
\<close>

type_synonym code_unit = nat
type_synonym jsstring = "code_unit list"

definition js :: "string \<Rightarrow> jsstring" where
  "js s = map of_char s"

text \<open>
  The code units that the definitions and theorems below name by number: 33 is \<^verbatim>\<open>!\<close>,
  34 the double quote, 35 \<^verbatim>\<open>#\<close>, 45 \<^verbatim>\<open>-\<close>, 48 to 57 the digits, 58 \<^verbatim>\<open>:\<close>, 60 \<^verbatim>\<open><\<close>,
  62 \<^verbatim>\<open>>\<close>, 64 \<^verbatim>\<open>@\<close>, 65 to 90 the capital letters, 95 \<^verbatim>\<open>_\<close>, 97 to 122 the small
  letters, 124 the bar.
\<close>

text \<open>
  The regular expressions of \<^verbatim>\<open>server.ts\<close> carry no \<^verbatim>\<open>s\<close> flag, so \<^verbatim>\<open>.\<close> matches every
  code unit but the four line terminators LF, CR, U+2028 and U+2029.
\<close>

definition is_line_terminator :: "code_unit \<Rightarrow> bool" where
  "is_line_terminator c = (c = 10 \<or> c = 13 \<or> c = 8232 \<or> c = 8233)"

text \<open>The character class \<^verbatim>\<open>[a-z0-9_-]\<close>.\<close>

definition is_shortcode_char :: "code_unit \<Rightarrow> bool" where
  "is_shortcode_char c = ((97 \<le> c \<and> c \<le> 122) \<or> (48 \<le> c \<and> c \<le> 57) \<or> c = 95 \<or> c = 45)"

section \<open>Regular-expression matching\<close>

text \<open>
  A matcher is tried at the start of a string. It yields what it captured together with
  the rest of the string after the match, or \<open>None\<close> when the expression does not match
  there.
\<close>

text \<open>A literal piece of a pattern.\<close>

definition lit :: "string \<Rightarrow> jsstring \<Rightarrow> jsstring option" where
  "lit p s = (if prefix (js p) s then Some (drop (length p) s) else None)"

text \<open>
  The lazy group \<^verbatim>\<open>(.*?)\<close> followed by the rest \<open>k\<close> of the pattern. The backtracking
  matcher first tries \<open>k\<close> where it stands, and only when that fails lets the group take
  one more code unit, which must not be a line terminator.
\<close>

fun lazy_then :: "(jsstring \<Rightarrow> 'a option) \<Rightarrow> jsstring \<Rightarrow> (jsstring \<times> 'a) option" where
  "lazy_then k [] = (case k [] of Some r \<Rightarrow> Some ([], r) | None \<Rightarrow> None)"
| "lazy_then k (c # cs) =
     (case k (c # cs) of
        Some r \<Rightarrow> Some ([], r)
      | None \<Rightarrow>
          if is_line_terminator c then None
          else (case lazy_then k cs of Some (g, r) \<Rightarrow> Some (c # g, r) | None \<Rightarrow> None))"

text \<open>
  The greedy group \<^verbatim>\<open>([a-z0-9_-]+)\<close> followed by a literal \<open>p\<close>. The group takes the
  longest run of class characters. Giving characters back cannot help in the patterns
  of this program: the literal after the group starts with a character outside the
  class.
\<close>

definition shortcode_then :: "string \<Rightarrow> jsstring \<Rightarrow> (jsstring \<times> jsstring) option" where
  "shortcode_then p s =
     (let g = takeWhile is_shortcode_char s in
      if g = [] then None
      else (case lit p (dropWhile is_shortcode_char s) of
              Some rest \<Rightarrow> Some (g, rest)
            | None \<Rightarrow> None))"

text \<open>\<^verbatim>\<open>.*$\<close>: the rest of the string holds no line terminator.\<close>

definition dots_to_end :: "jsstring \<Rightarrow> bool" where
  "dots_to_end s = (\<forall>c \<in> set s. \<not> is_line_terminator c)"

text \<open>
  \<^verbatim>\<open>String.prototype.match\<close> with an expression that has no \<^verbatim>\<open>^\<close>: the first position
  of the string where the expression matches.
\<close>

fun search :: "(jsstring \<Rightarrow> 'a option) \<Rightarrow> jsstring \<Rightarrow> 'a option" where
  "search re [] = re []"
| "search re (c # cs) = (case re (c # cs) of Some r \<Rightarrow> Some r | None \<Rightarrow> search re cs)"

text \<open>
  \<^verbatim>\<open>s.replace(re, (_, match) => f(match))\<close> with a global expression \<open>re\<close>: the string is
  scanned from the left; where \<open>re\<close> matches, the callback's result on the first group
  replaces the match and the scan goes on after it; elsewhere the code unit is kept. An
  empty match would be replaced and the scan moved on by one code unit.
\<close>

function replace_g ::
  "(jsstring \<Rightarrow> (jsstring \<times> jsstring) option) \<Rightarrow> (jsstring \<Rightarrow> jsstring) \<Rightarrow> jsstring \<Rightarrow> jsstring"
where
  "replace_g re f [] = (case re [] of Some (g, rest) \<Rightarrow> f g | None \<Rightarrow> [])"
| "replace_g re f (c # cs) =
     (case re (c # cs) of
        Some (g, rest) \<Rightarrow>
          if length rest < length (c # cs) then f g @ replace_g re f rest
          else f g @ c # replace_g re f cs
      | None \<Rightarrow> c # replace_g re f cs)"
  by pat_completeness auto
termination
  by (relation "measure (\<lambda>(re, f, s). length s)") auto

section \<open>The markup protector\<close>

text \<open>\<^verbatim>\<open>/<(.*?)>/\<close>\<close>

definition re_bracket :: "jsstring \<Rightarrow> (jsstring \<times> jsstring) option" where
  "re_bracket s = (case lit ''<'' s of Some s1 \<Rightarrow> lazy_then (lit ''>'') s1 | None \<Rightarrow> None)"

text \<open>\<^verbatim>\<open>/^[#@].*$/\<close> and \<^verbatim>\<open>/^([#@].*)$/\<close>: the group is the whole string.\<close>

definition re_mention :: "jsstring \<Rightarrow> jsstring option" where
  "re_mention m =
     (case m of
        [] \<Rightarrow> None
      | c # cs \<Rightarrow> if (c = 35 \<or> c = 64) \<and> dots_to_end cs then Some m else None)"

text \<open>\<^verbatim>\<open>/^!subteam.*$/\<close>\<close>

definition re_subteam :: "jsstring \<Rightarrow> bool" where
  "re_subteam m = (case lit ''!subteam'' m of Some r \<Rightarrow> dots_to_end r | None \<Rightarrow> False)"

text \<open>\<^verbatim>\<open>/^!date.*$/\<close> and \<^verbatim>\<open>/^(!date.*)$/\<close>: the group is the whole string.\<close>

definition re_date :: "jsstring \<Rightarrow> jsstring option" where
  "re_date m =
     (case lit ''!date'' m of
        Some r \<Rightarrow> if dots_to_end r then Some m else None
      | None \<Rightarrow> None)"

text \<open>\<^verbatim>\<open>/^!.*$/\<close>\<close>

definition re_special :: "jsstring \<Rightarrow> bool" where
  "re_special m = (case lit ''!'' m of Some r \<Rightarrow> dots_to_end r | None \<Rightarrow> False)"

text \<open>
  \<^verbatim>\<open>/^!(.*?)(?:\|.*)?$/\<close>: after the lazy group comes either a bar and the rest of the
  string, or the end of the string.
\<close>

definition bar_tail_opt :: "jsstring \<Rightarrow> unit option" where
  "bar_tail_opt s =
     (case s of
        [] \<Rightarrow> Some ()
      | c # cs \<Rightarrow> if c = 124 \<and> dots_to_end cs then Some () else None)"

definition re_special_name :: "jsstring \<Rightarrow> jsstring option" where
  "re_special_name m =
     (case lit ''!'' m of
        Some r \<Rightarrow> map_option fst (lazy_then bar_tail_opt r)
      | None \<Rightarrow> None)"

text \<open>
  \<^verbatim>\<open>/^.*?\|.*$/\<close> and \<^verbatim>\<open>/^(.*?)\|(.*)$/\<close>: the two groups are the text before the bar and the
  text after it.
\<close>

definition bar_tail :: "jsstring \<Rightarrow> jsstring option" where
  "bar_tail s =
     (case s of
        [] \<Rightarrow> None
      | c # cs \<Rightarrow> if c = 124 \<and> dots_to_end cs then Some cs else None)"

definition re_link :: "jsstring \<Rightarrow> (jsstring \<times> jsstring) option" where
  "re_link m = lazy_then bar_tail m"

text \<open>The callback of the first \<^verbatim>\<open>replace\<close>, lines 103 to 136.\<close>

definition protect_payload :: "jsstring \<Rightarrow> jsstring" where
  "protect_payload m =
     (if re_mention m \<noteq> None then
        (case re_mention m of
           Some g \<Rightarrow> js ''<mrkdwn>'' @ g @ js ''</mrkdwn>''
         | None \<Rightarrow> [])
      else if re_subteam m then js ''@[subteam mention removed]''
      else if re_date m \<noteq> None then
        (case re_date m of
           Some g \<Rightarrow> js ''<mrkdwn>'' @ g @ js ''</mrkdwn>''
         | None \<Rightarrow> [])
      else if re_special m then
        (case re_special_name m of
           Some g \<Rightarrow> js ''<ignore>@'' @ g @ js ''</ignore>''
         | None \<Rightarrow> js ''<ignore>@[special mention]</ignore>'')
      else if re_link m \<noteq> None then
        (case re_link m of
           Some (u, d) \<Rightarrow> js ''<a href=\"'' @ u @ js ''\">'' @ d @ js ''</a>''
         | None \<Rightarrow> [])
      else js ''<mrkdwn>'' @ m @ js ''</mrkdwn>'')"

text \<open>\<^verbatim>\<open>/:([a-z0-9_-]+):/\<close>\<close>

definition re_shortcode :: "jsstring \<Rightarrow> (jsstring \<times> jsstring) option" where
  "re_shortcode s = (case lit '':'' s of Some s1 \<Rightarrow> shortcode_then '':'' s1 | None \<Rightarrow> None)"

definition protect_emoji :: "jsstring \<Rightarrow> jsstring" where
  "protect_emoji g = js ''<emoji>'' @ g @ js ''</emoji>''"

text \<open>
  \<^verbatim>\<open>targetText\<close>, lines 102 to 139. The message may have no text (\<^verbatim>\<open>?.\<close>), and an empty
  result is replaced by the empty string (\<^verbatim>\<open>|| ""\<close>).
\<close>

definition targetText :: "jsstring option \<Rightarrow> jsstring" where
  "targetText text =
     (case text of
        None \<Rightarrow> []
      | Some t \<Rightarrow>
          (let r = replace_g re_shortcode protect_emoji (replace_g re_bracket protect_payload t)
           in if r = [] then [] else r))"

section \<open>The markup restorer\<close>

text \<open>\<^verbatim>\<open>/<emoji>([a-z0-9_-]+)<\/emoji>/\<close>\<close>

definition re_emoji_span :: "jsstring \<Rightarrow> (jsstring \<times> jsstring) option" where
  "re_emoji_span s =
     (case lit ''<emoji>'' s of Some s1 \<Rightarrow> shortcode_then ''</emoji>'' s1 | None \<Rightarrow> None)"

definition restore_emoji :: "jsstring \<Rightarrow> jsstring" where
  "restore_emoji g = js '':'' @ g @ js '':''"

text \<open>\<^verbatim>\<open>/<mrkdwn>(.*?)<\/mrkdwn>/\<close>\<close>

definition re_mrkdwn_span :: "jsstring \<Rightarrow> (jsstring \<times> jsstring) option" where
  "re_mrkdwn_span s =
     (case lit ''<mrkdwn>'' s of Some s1 \<Rightarrow> lazy_then (lit ''</mrkdwn>'') s1 | None \<Rightarrow> None)"

definition restore_mrkdwn :: "jsstring \<Rightarrow> jsstring" where
  "restore_mrkdwn g = js ''<'' @ g @ js ''>''"

text \<open>
  \<^verbatim>\<open><a href="(.*?)">(.*?)<\/a>\<close>: the two lazy groups, and the rest of the string. When no
  closing tag follows the first \<^verbatim>\<open>">\<close>, the matcher backtracks into the first group.
\<close>

definition anchor_tail :: "jsstring \<Rightarrow> (jsstring \<times> jsstring) option" where
  "anchor_tail s = (case lit ''\">'' s of Some s1 \<Rightarrow> lazy_then (lit ''</a>'') s1 | None \<Rightarrow> None)"

definition re_anchor :: "jsstring \<Rightarrow> (jsstring \<times> jsstring \<times> jsstring) option" where
  "re_anchor s = (case lit ''<a href=\"'' s of Some s1 \<Rightarrow> lazy_then anchor_tail s1 | None \<Rightarrow> None)"

text \<open>
  \<^verbatim>\<open>/(<a href="(?:.*?)">(?:.*?)<\/a>)/\<close>: the same expression with the whole match as its
  only group.
\<close>

definition re_anchor_span :: "jsstring \<Rightarrow> (jsstring \<times> jsstring) option" where
  "re_anchor_span s =
     (case re_anchor s of
        Some (u, d, rest) \<Rightarrow> Some (take (length s - length rest) s, rest)
      | None \<Rightarrow> None)"

text \<open>The callback of the anchor rule matches the span again to take it apart.\<close>

definition restore_anchor :: "jsstring \<Rightarrow> jsstring" where
  "restore_anchor m =
     (case search re_anchor m of
        Some (u, d, rest) \<Rightarrow> js ''<'' @ u @ js ''|'' @ d @ js ''>''
      | None \<Rightarrow> [])"

text \<open>\<^verbatim>\<open>/<ignore>(.*?)<\/ignore>/\<close>\<close>

definition re_ignore_span :: "jsstring \<Rightarrow> (jsstring \<times> jsstring) option" where
  "re_ignore_span s =
     (case lit ''<ignore>'' s of Some s1 \<Rightarrow> lazy_then (lit ''</ignore>'') s1 | None \<Rightarrow> None)"

definition restore_ignore :: "jsstring \<Rightarrow> jsstring" where
  "restore_ignore g = g"

text \<open>\<^verbatim>\<open>translatedText\<close>, lines 175 to 194: four passes, one after the other.\<close>

definition translatedText :: "jsstring \<Rightarrow> jsstring" where
  "translatedText t =
     replace_g re_ignore_span restore_ignore
       (replace_g re_anchor_span restore_anchor
          (replace_g re_mrkdwn_span restore_mrkdwn
             (replace_g re_emoji_span restore_emoji t)))"

section \<open>The reaction handler\<close>

text \<open>
  The reaction event of Slack's Events API, with the fields the program reads:
  \<^verbatim>\<open>event.type\<close>, \<^verbatim>\<open>event.reaction\<close>, \<^verbatim>\<open>event.item.channel\<close> and \<^verbatim>\<open>event.item.ts\<close>.
\<close>

record event =
  event_type :: jsstring
  reaction :: jsstring
  item_channel :: jsstring
  item_ts :: jsstring

text \<open>
  A message of a \<^verbatim>\<open>conversations.replies\<close> answer; a field that is missing is \<open>None\<close>.
\<close>

record message =
  msg_text :: "jsstring option"
  msg_thread_ts :: "jsstring option"

record replies_response =
  error :: "jsstring option"
  messages :: "message list option"

text \<open>
  The answer of the translation service: the HTTP status and the \<^verbatim>\<open>translations\<close> of its
  JSON body (\<open>None\<close> when the body is null or has no such field), each with its
  \<^verbatim>\<open>text\<close>.
\<close>

record deepl_response =
  deepl_status :: nat
  deepl_translations :: "jsstring option list option"

text \<open>
  What the handler takes from outside \<^verbatim>\<open>server.ts\<close>: the table \<^verbatim>\<open>allReactionToLang\<close> of
  \<^verbatim>\<open>functions/detect_lang.ts\<close>, the key of the translation service,
  \<^verbatim>\<open>String.prototype.toUpperCase\<close>, and the answers of the two services. The table is an
  object: \<open>allReactionToLang\<close> holds its own entries, from names to language codes, and
  \<open>table_inherits\<close> tells the names that the object takes from its prototype. A call that
  fails (a rejected \<^verbatim>\<open>fetch\<close>) answers \<open>None\<close>; the \<^verbatim>\<open>catch\<close> of the handler then ends the
  processing.
\<close>

record collaborators =
  allReactionToLang :: "jsstring \<Rightarrow> jsstring option"
  table_inherits :: "jsstring \<Rightarrow> bool"
  deeplAuthKey :: jsstring
  toUpperCase :: "jsstring \<Rightarrow> jsstring"
  conversations_replies :: "jsstring \<Rightarrow> jsstring \<Rightarrow> bool \<Rightarrow> replies_response option"
  deepl_translate :: "jsstring \<Rightarrow> jsstring \<Rightarrow> jsstring \<Rightarrow> deepl_response option"

text \<open>
  What the property read \<^verbatim>\<open>allReactionToLang[name]\<close> gives: \<^verbatim>\<open>undefined\<close>, the language code
  of an own entry, or a member of the prototype. The members of \<^verbatim>\<open>Object.prototype\<close> are
  functions and, for \<^verbatim>\<open>__proto__\<close>, an object: they count as true in a condition and have
  no method \<^verbatim>\<open>toUpperCase\<close>.
\<close>

datatype lookup = Undefined | Language jsstring | Inherited

definition table_get :: "collaborators \<Rightarrow> jsstring \<Rightarrow> lookup" where
  "table_get C name =
     (case allReactionToLang C name of
        Some l \<Rightarrow> Language l
      | None \<Rightarrow> if table_inherits C name then Inherited else Undefined)"

text \<open>The names that an ordinary object, such as an object literal, takes from \<^verbatim>\<open>Object.prototype\<close>.\<close>

definition object_prototype_names :: "jsstring list" where
  "object_prototype_names =
     [js ''constructor'', js ''hasOwnProperty'', js ''isPrototypeOf'',
      js ''propertyIsEnumerable'', js ''toLocaleString'', js ''toString'', js ''valueOf'',
      js ''__proto__'', js ''__defineGetter__'', js ''__defineSetter__'',
      js ''__lookupGetter__'', js ''__lookupSetter__'']"

text \<open>
  The outbound calls: \<^verbatim>\<open>conversations.replies\<close> with channel, timestamp and whether
  \<^verbatim>\<open>limit: 1, inclusive: true\<close> is set; the translation request with the subdomain of
  the service, the text and the target language; \<^verbatim>\<open>chat.postMessage\<close> with channel, text
  and thread.
\<close>

datatype call =
    Conversations_replies jsstring jsstring bool
  | Deepl_translate jsstring jsstring jsstring
  | Chat_postMessage jsstring jsstring jsstring

text \<open>A value that JavaScript takes for false in a condition: missing, or the empty string.\<close>

definition falsy :: "jsstring option \<Rightarrow> bool" where
  "falsy v = (v = None \<or> v = Some [])"

text \<open>\<^verbatim>\<open>reaction.replace(/^flag-/, "")\<close>\<close>

definition strip_flag :: "jsstring \<Rightarrow> jsstring" where
  "strip_flag r = (case lit ''flag-'' r of Some rest \<Rightarrow> rest | None \<Rightarrow> r)"

text \<open>Lines 59 to 67.\<close>

definition detect_lang :: "(jsstring \<Rightarrow> lookup) \<Rightarrow> jsstring \<Rightarrow> lookup" where
  "detect_lang table r =
     (if prefix (js ''flag-'') r then table (strip_flag r) else table r)"

text \<open>\<^verbatim>\<open>!lang\<close>: true for \<^verbatim>\<open>undefined\<close> and for the empty string.\<close>

definition no_lang :: "lookup \<Rightarrow> bool" where
  "no_lang lang = (lang = Undefined \<or> lang = Language [])"

text \<open>Lines 197 to 204: the loop over the replies of the thread.\<close>

fun already_posted :: "message list \<Rightarrow> jsstring \<Rightarrow> bool" where
  "already_posted [] t = False"
| "already_posted (m # ms) t = (if msg_text m = Some t then True else already_posted ms t)"

text \<open>
  Lines 52 to 194: everything up to the restored translation. The result is the list of
  the calls made and, when the processing got as far as the duplicate check, the
  replies of the thread, the thread and the translated text. A language that is not a
  string makes \<^verbatim>\<open>lang.toUpperCase()\<close> of line 150 throw, after the two fetches and before
  the translation request.
\<close>

definition translate_reaction ::
  "collaborators \<Rightarrow> event \<Rightarrow> call list \<times> (replies_response \<times> jsstring \<times> jsstring) option"
where
  "translate_reaction C e =
     (let lang = detect_lang (table_get C) (reaction e) in
      if no_lang lang then ([], None)
      else
        let c1 = Conversations_replies (item_channel e) (item_ts e) True in
        (case conversations_replies C (item_channel e) (item_ts e) True of
           None \<Rightarrow> ([c1], None)
         | Some messageResponse \<Rightarrow>
             if \<not> falsy (error messageResponse) then ([c1], None)
             else
               (case messages messageResponse of
                  None \<Rightarrow> ([c1], None)
                | Some [] \<Rightarrow> ([c1], None)
                | Some (targetMessage # _) \<Rightarrow>
                    let threadTs =
                          (case msg_thread_ts targetMessage of
                             None \<Rightarrow> item_ts e
                           | Some t \<Rightarrow> if t = [] then item_ts e else t);
                        c2 = Conversations_replies (item_channel e) threadTs False
                    in
                    (case conversations_replies C (item_channel e) threadTs False of
                       None \<Rightarrow> ([c1, c2], None)
                     | Some replies \<Rightarrow>
                         let apiSubdomain =
                               (if suffix (js '':fx'') (deeplAuthKey C) then js ''api-free''
                                else js ''api'');
                             target = targetText (msg_text targetMessage)
                         in
                         (case lang of
                            Undefined \<Rightarrow> ([c1, c2], None)
                          | Inherited \<Rightarrow> ([c1, c2], None)
                          | Language l \<Rightarrow>
                              let target_lang = toUpperCase C l;
                                  c3 = Deepl_translate apiSubdomain target target_lang
                              in
                              (case deepl_translate C apiSubdomain target target_lang of
                                 None \<Rightarrow> ([c1, c2, c3], None)
                               | Some deeplResponse \<Rightarrow>
                                   if deepl_status deeplResponse \<noteq> 200
                                   then ([c1, c2, c3], None)
                                   else
                                     (case deepl_translations deeplResponse of
                                        None \<Rightarrow> ([c1, c2, c3], None)
                                      | Some [] \<Rightarrow> ([c1, c2, c3], None)
                                      | Some (None # _) \<Rightarrow> ([c1, c2, c3], None)
                                      | Some (Some t # _) \<Rightarrow>
                                          ([c1, c2, c3],
                                           Some (replies, threadTs, translatedText t)))))))))"

text \<open>Lines 196 to 211: the duplicate check and the post.\<close>

definition post_translation ::
  "replies_response \<Rightarrow> jsstring \<Rightarrow> jsstring \<Rightarrow> jsstring \<Rightarrow> call list"
where
  "post_translation replies channelId threadTs translated =
     (if (case messages replies of Some ms \<Rightarrow> already_posted ms translated | None \<Rightarrow> False)
      then []
      else [Chat_postMessage channelId translated threadTs])"

text \<open>\<^verbatim>\<open>handleReactionAdded\<close>: the calls it makes, in order.\<close>

definition handleReactionAdded :: "collaborators \<Rightarrow> event \<Rightarrow> call list" where
  "handleReactionAdded C e =
     (case translate_reaction C e of
        (calls, None) \<Rightarrow> calls
      | (calls, Some (replies, threadTs, translated)) \<Rightarrow>
          calls @ post_translation replies (item_channel e) threadTs translated)"

section \<open>The HTTP handler\<close>

text \<open>
  \<^verbatim>\<open>parseInt\<close> with one argument, after ECMAScript: leading white space is skipped, a
  sign is read, a prefix \<^verbatim>\<open>0x\<close> or \<^verbatim>\<open>0X\<close> selects radix 16, and the longest run of digits
  of the radix is the number; without a digit the result is \<^verbatim>\<open>NaN\<close>, here \<open>None\<close>. The
  number is kept exact, where JavaScript rounds beyond \<open>2 ^ 53\<close>; the comparison with 300
  below comes out the same, since \<^verbatim>\<open>Date.now()\<close> stays far below \<open>2 ^ 53\<close>.
\<close>

definition is_white_space :: "code_unit \<Rightarrow> bool" where
  "is_white_space c =
     (c = 9 \<or> c = 10 \<or> c = 11 \<or> c = 12 \<or> c = 13 \<or> c = 32 \<or> c = 160 \<or> c = 5760 \<or>
      (8192 \<le> c \<and> c \<le> 8202) \<or> c = 8232 \<or> c = 8233 \<or> c = 8239 \<or> c = 8287 \<or>
      c = 12288 \<or> c = 65279)"

definition digit_value :: "code_unit \<Rightarrow> nat option" where
  "digit_value c =
     (if 48 \<le> c \<and> c \<le> 57 then Some (c - 48)
      else if 97 \<le> c \<and> c \<le> 122 then Some (c - 87)
      else if 65 \<le> c \<and> c \<le> 90 then Some (c - 55)
      else None)"

definition digit_of :: "code_unit \<Rightarrow> nat" where
  "digit_of c = (case digit_value c of Some d \<Rightarrow> d | None \<Rightarrow> 0)"

definition is_digit :: "nat \<Rightarrow> code_unit \<Rightarrow> bool" where
  "is_digit radix c = (case digit_value c of Some d \<Rightarrow> d < radix | None \<Rightarrow> False)"

definition parseInt :: "jsstring \<Rightarrow> int option" where
  "parseInt string =
     (let s = dropWhile is_white_space string;
          sign = (if prefix (js ''-'') s then - 1 else 1 :: int);
          s1 = (if prefix (js ''-'') s \<or> prefix (js ''+'') s then drop 1 s else s);
          hex = (prefix (js ''0x'') s1 \<or> prefix (js ''0X'') s1);
          radix = (if hex then 16 else 10 :: nat);
          s2 = (if hex then drop 2 s1 else s1);
          z = takeWhile (is_digit radix) s2
      in if z = [] then None
         else Some (sign * int (foldl (\<lambda>n c. n * radix + digit_of c) 0 z)))"

text \<open>
  \<^verbatim>\<open>Math.abs(currentTime - parseInt(timestamp)) > 300\<close>: a comparison with \<^verbatim>\<open>NaN\<close> is
  false.
\<close>

definition timestamp_too_old :: "int \<Rightarrow> jsstring \<Rightarrow> bool" where
  "timestamp_too_old currentTime timestamp =
     (case parseInt timestamp of
        None \<Rightarrow> False
      | Some t \<Rightarrow> \<bar>currentTime - t\<bar> > 300)"

text \<open>\<^verbatim>\<open>b.toString(16).padStart(2, "0")\<close> for a byte \<open>b\<close>.\<close>

definition hex_digit :: "nat \<Rightarrow> code_unit" where
  "hex_digit d = (if d < 10 then 48 + d else 87 + d)"

function toString16 :: "nat \<Rightarrow> jsstring" where
  "toString16 n = (if n < 16 then [hex_digit n] else toString16 (n div 16) @ [hex_digit (n mod 16)])"
  by pat_completeness auto
termination
  by (relation "measure (\<lambda>n. n)") auto

declare toString16.simps [simp del]

definition padStart :: "nat \<Rightarrow> code_unit \<Rightarrow> jsstring \<Rightarrow> jsstring" where
  "padStart n c s = replicate (n - length s) c @ s"

text \<open>
  What the handler takes from the runtime: \<^verbatim>\<open>TextEncoder.encode\<close>, the HMAC with SHA-256
  of \<^verbatim>\<open>crypto.subtle\<close> (key first, then message), and \<^verbatim>\<open>JSON.parse\<close> together with the
  fields read from its result.
\<close>

datatype payload =
    Url_verification jsstring
  | Event_callback "event option"
  | Other_payload

record runtime =
  encode :: "jsstring \<Rightarrow> 8 word list"
  hmac_sha256 :: "8 word list \<Rightarrow> 8 word list \<Rightarrow> 8 word list"
  json_parse :: "jsstring \<Rightarrow> payload option"

text \<open>Lines 249 to 265.\<close>

definition computedSignature :: "runtime \<Rightarrow> jsstring \<Rightarrow> jsstring \<Rightarrow> jsstring \<Rightarrow> jsstring" where
  "computedSignature R signingSecret timestamp body =
     (let sigBaseString = js ''v0:'' @ timestamp @ js '':'' @ body;
          signatureBytes = hmac_sha256 R (encode R signingSecret) (encode R sigBaseString)
      in js ''v0='' @ concat (map (\<lambda>b. padStart 2 48 (toString16 (unat b))) signatureBytes))"

record request =
  req_method :: jsstring
  pathname :: jsstring
  req_body :: jsstring
  x_slack_request_timestamp :: "jsstring option"
  x_slack_signature :: "jsstring option"

record response =
  status :: nat
  content :: jsstring

definition Unauthorized :: response where
  "Unauthorized = \<lparr>status = 401, content = js ''Unauthorized''\<rparr>"

definition OK :: response where
  "OK = \<lparr>status = 200, content = js ''OK''\<rparr>"

text \<open>
  \<^verbatim>\<open>handler\<close>, with the time \<^verbatim>\<open>Date.now()\<close> in milliseconds. The result is the response and
  the event handed to \<^verbatim>\<open>handleReactionAdded\<close>, if any.
\<close>

definition handler :: "runtime \<Rightarrow> jsstring \<Rightarrow> int \<Rightarrow> request \<Rightarrow> response \<times> event option" where
  "handler R signingSecret now req =
     (if req_method req = js ''GET'' \<and> pathname req = js ''/'' then (OK, None)
      else if req_method req = js ''POST'' \<and> pathname req = js ''/slack/events'' then
        (case x_slack_request_timestamp req of
           None \<Rightarrow> (Unauthorized, None)
         | Some timestamp \<Rightarrow>
             (case x_slack_signature req of
                None \<Rightarrow> (Unauthorized, None)
              | Some signature \<Rightarrow>
                  if timestamp = [] \<or> signature = [] then (Unauthorized, None)
                  else
                    let currentTime = now div 1000 in
                    if timestamp_too_old currentTime timestamp then (Unauthorized, None)
                    else if signature \<noteq> computedSignature R signingSecret timestamp (req_body req)
                    then (Unauthorized, None)
                    else
                      (case json_parse R (req_body req) of
                         None \<Rightarrow> (\<lparr>status = 500, content = js ''Internal Server Error''\<rparr>, None)
                       | Some (Url_verification challenge) \<Rightarrow>
                           (\<lparr>status = 200, content = challenge\<rparr>, None)
                       | Some (Event_callback None) \<Rightarrow>
                           (\<lparr>status = 500, content = js ''Internal Server Error''\<rparr>, None)
                       | Some (Event_callback (Some ev)) \<Rightarrow>
                           (OK, if event_type ev = js ''reaction_added'' then Some ev else None)
                       | Some Other_payload \<Rightarrow> (OK, None))))
      else (\<lparr>status = 404, content = js ''Not Found''\<rparr>, None))"

text \<open>The server: the response, and the calls made for the request.\<close>

definition serve ::
  "runtime \<Rightarrow> collaborators \<Rightarrow> jsstring \<Rightarrow> int \<Rightarrow> request \<Rightarrow> response \<times> call list"
where
  "serve R C signingSecret now req =
     (case handler R signingSecret now req of
        (resp, None) \<Rightarrow> (resp, [])
      | (resp, Some ev) \<Rightarrow> (resp, handleReactionAdded C ev))"

section \<open>Reference definitions and example data\<close>

text \<open>
  The signature as the specification words it: \<^verbatim>\<open>v0=\<close>, then for every byte of the digest
  two lowercase hexadecimal digits, the high one first.
\<close>

definition hex_chars :: jsstring where
  "hex_chars = js ''0123456789abcdef''"

definition spec_hex :: "8 word \<Rightarrow> jsstring" where
  "spec_hex b = [hex_chars ! (unat b div 16), hex_chars ! (unat b mod 16)]"

definition spec_signature :: "runtime \<Rightarrow> jsstring \<Rightarrow> jsstring \<Rightarrow> jsstring \<Rightarrow> jsstring" where
  "spec_signature R secret timestamp body =
     js ''v0='' @ concat (map spec_hex
        (hmac_sha256 R (encode R secret) (encode R (js ''v0:'' @ timestamp @ js '':'' @ body))))"

text \<open>
  The rules of the protector for the payload of a bracketed token, as the specification
  lists them: a channel or user mention, a subteam mention, a date, any other special
  mention, a link with a display text, anything else.
\<close>

definition spec_protect_payload :: "jsstring \<Rightarrow> jsstring" where
  "spec_protect_payload p =
     (if prefix (js ''#'') p \<or> prefix (js ''@'') p then js ''<mrkdwn>'' @ p @ js ''</mrkdwn>''
      else if prefix (js ''!subteam'') p then js ''@[subteam mention removed]''
      else if prefix (js ''!date'') p then js ''<mrkdwn>'' @ p @ js ''</mrkdwn>''
      else if prefix (js ''!'') p then
        js ''<ignore>@'' @ takeWhile (\<lambda>c. c \<noteq> 124) (drop 1 p) @ js ''</ignore>''
      else if 124 \<in> set p then
        js ''<a href=\"'' @ takeWhile (\<lambda>c. c \<noteq> 124) p @ js ''\">'' @
        drop 1 (dropWhile (\<lambda>c. c \<noteq> 124) p) @ js ''</a>''
      else js ''<mrkdwn>'' @ p @ js ''</mrkdwn>'')"

text \<open>
  The restorer as the specification asks for it: the anchor rule first, as one pass over
  the whole text, and the unwrapping of the other spans after it.
\<close>

definition spec_restore_anchor_first :: "jsstring \<Rightarrow> jsstring" where
  "spec_restore_anchor_first t =
     replace_g re_ignore_span restore_ignore
       (replace_g re_mrkdwn_span restore_mrkdwn
          (replace_g re_emoji_span restore_emoji
             (replace_g re_anchor_span restore_anchor t)))"

text \<open>A runtime, a request, an event and collaborators to run the program on.\<close>

definition example_runtime :: runtime where
  "example_runtime =
     \<lparr>encode = (\<lambda>s. map of_nat s),
      hmac_sha256 = (\<lambda>key msg. [10, 255]),
      json_parse = (\<lambda>body. Some Other_payload)\<rparr>"

definition example_request :: request where
  "example_request =
     \<lparr>req_method = js ''POST'', pathname = js ''/slack/events'', req_body = js ''{}'',
      x_slack_request_timestamp = Some (js ''1700000000''),
      x_slack_signature = Some (js ''v0=0aff'')\<rparr>"

definition example_event :: event where
  "example_event =
     \<lparr>event_type = js ''reaction_added'', reaction = js ''flag-fr'',
      item_channel = js ''C1'', item_ts = js ''1.0''\<rparr>"

definition example_collaborators :: collaborators where
  "example_collaborators =
     \<lparr>allReactionToLang = (\<lambda>r. if r = js ''fr'' then Some (js ''fr'') else None),
      table_inherits = (\<lambda>r. r \<in> set object_prototype_names),
      deeplAuthKey = js ''key:fx'',
      toUpperCase = (\<lambda>s. js ''FR''),
      conversations_replies = (\<lambda>channel ts single.
         if single
         then Some \<lparr>error = None,
                    messages = Some [\<lparr>msg_text = Some (js ''Hello''), msg_thread_ts = None\<rparr>]\<rparr>
         else Some \<lparr>error = None,
                    messages = Some [\<lparr>msg_text = Some (js ''Hello''), msg_thread_ts = None\<rparr>,
                                     \<lparr>msg_text = Some (js ''Bonjour''), msg_thread_ts = Some (js ''1.0'')\<rparr>]\<rparr>),
      deepl_translate = (\<lambda>subdomain text lang.
         Some \<lparr>deepl_status = 200, deepl_translations = Some [Some (js ''Bonjour'')]\<rparr>)\<rparr>"

section \<open>Evaluating the program\<close>

lemmas regex_defs = js_def lit_def re_bracket_def re_mention_def re_subteam_def re_date_def
  re_special_def re_special_name_def bar_tail_opt_def bar_tail_def re_link_def protect_payload_def
  re_shortcode_def protect_emoji_def targetText_def re_emoji_span_def restore_emoji_def
  re_mrkdwn_span_def restore_mrkdwn_def anchor_tail_def re_anchor_def re_anchor_span_def
  restore_anchor_def re_ignore_span_def restore_ignore_def translatedText_def shortcode_then_def
  dots_to_end_def is_line_terminator_def is_shortcode_char_def

lemma parseInt_example: "parseInt (js ''1700000000'') = Some 1700000000"
  by (simp add: parseInt_def js_def is_white_space_def is_digit_def digit_value_def digit_of_def
        Let_def)

lemma parseInt_abc: "parseInt (js ''abc'') = None"
  by (simp add: parseInt_def js_def is_white_space_def is_digit_def digit_value_def digit_of_def
        Let_def)

lemma example_translate:
  "translate_reaction example_collaborators example_event =
     ([Conversations_replies (js ''C1'') (js ''1.0'') True,
       Conversations_replies (js ''C1'') (js ''1.0'') False,
       Deepl_translate (js ''api-free'') (js ''Hello'') (js ''FR'')],
      Some (\<lparr>error = None,
              messages = Some [\<lparr>msg_text = Some (js ''Hello''), msg_thread_ts = None\<rparr>,
                               \<lparr>msg_text = Some (js ''Bonjour''), msg_thread_ts = Some (js ''1.0'')\<rparr>]\<rparr>,
            js ''1.0'', js ''Bonjour''))"
  by (simp add: translate_reaction_def example_collaborators_def example_event_def detect_lang_def
        table_get_def no_lang_def strip_flag_def falsy_def suffix_def Let_def regex_defs)

section \<open>The signature verifier\<close>

lemma hex_chars_nth: "d < 16 \<Longrightarrow> hex_chars ! d = hex_digit d"
proof -
  assume "d < 16"
  then have "d \<in> {0,1,2,3,4,5,6,7,8,9,10,11,12,13,14,15}" by (simp add: insert_iff) arith
  then show ?thesis
    by (auto simp: hex_chars_def js_def hex_digit_def)
qed

lemma toString16_small: "n < 16 \<Longrightarrow> toString16 n = [hex_digit n]"
  by (simp add: toString16.simps)

lemma toString16_two:
  "16 \<le> n \<Longrightarrow> n < 256 \<Longrightarrow> toString16 n = [hex_digit (n div 16), hex_digit (n mod 16)]"
  by (subst toString16.simps) (simp add: toString16_small)

lemma hex_byte: "padStart 2 48 (toString16 (unat (b :: 8 word))) = spec_hex b"
proof -
  have lt: "unat b < 256" using unsigned_less [of b] by simp
  show ?thesis
  proof (cases "unat b < 16")
    case True
    then show ?thesis
      by (simp add: toString16_small padStart_def spec_hex_def hex_chars_nth hex_digit_def)
  next
    case False
    with lt have "unat b div 16 < 16" by simp
    with False lt show ?thesis
      by (simp add: toString16_two padStart_def spec_hex_def hex_chars_nth)
  qed
qed

lemma computedSignature_spec:
  "computedSignature R secret ts body = spec_signature R secret ts body"
  by (simp add: computedSignature_def spec_signature_def hex_byte Let_def)

lemma flip_bit_neq: "flip_bit j (c :: nat) \<noteq> c"
proof
  assume "flip_bit j c = c"
  then have "bit (flip_bit j c) j = bit c j" by simp
  then show False by (simp add: bit_flip_bit_iff)
qed

lemma mutate_neq: "i < length s \<Longrightarrow> s[i := flip_bit j (s ! i)] \<noteq> (s :: nat list)"
proof
  assume i: "i < length s" and eq: "s[i := flip_bit j (s ! i)] = s"
  from eq have "s[i := flip_bit j (s ! i)] ! i = s ! i" by simp
  with i show False by (simp add: flip_bit_neq)
qed

lemma example_sig:
  "spec_signature example_runtime s (js ''1700000000'') (js ''{}'') = js ''v0=0aff''"
  by (simp add: spec_signature_def example_runtime_def spec_hex_def hex_chars_def js_def)

text \<open>
  C2. On a POST to the events endpoint whose timestamp header is \<open>ts\<close>, the only signature
  header that is accepted is \<^verbatim>\<open>v0=\<close> followed by the lowercase hexadecimal digits, two for
  each byte, of the HMAC-SHA256 of \<^verbatim>\<open>v0:\<close>, \<open>ts\<close>, \<^verbatim>\<open>:\<close> and the body under the shared
  secret. Every other signature header is answered with 401, whatever the time; the
  right one is not answered with 401 when the timestamp passes its own check; and
  flipping one bit of one code unit of the right one is answered with 401.
\<close>

theorem signature_exact:
  assumes "req_method req = js ''POST''" and "pathname req = js ''/slack/events''"
    and "x_slack_request_timestamp req = Some ts"
  shows "(x_slack_signature req \<noteq> Some (spec_signature R secret ts (req_body req)) \<longrightarrow>
            handler R secret now req = (Unauthorized, None)) \<and>
         (x_slack_signature req = Some (spec_signature R secret ts (req_body req)) \<and> ts \<noteq> [] \<and>
            \<not> timestamp_too_old (now div 1000) ts \<longrightarrow>
            status (fst (handler R secret now req)) \<noteq> 401) \<and>
         (\<forall>i j. i < length (spec_signature R secret ts (req_body req)) \<and> j < 16 \<longrightarrow>
            handler R secret now
              (req\<lparr>x_slack_signature :=
                 Some ((spec_signature R secret ts (req_body req))
                         [i := flip_bit j (spec_signature R secret ts (req_body req) ! i)])\<rparr>)
            = (Unauthorized, None))"
proof (intro conjI impI allI)
  assume "x_slack_signature req \<noteq> Some (spec_signature R secret ts (req_body req))"
  with assms show "handler R secret now req = (Unauthorized, None)"
    by (cases "x_slack_signature req")
       (auto simp: handler_def computedSignature_spec Let_def js_def)
next
  assume "x_slack_signature req = Some (spec_signature R secret ts (req_body req)) \<and> ts \<noteq> [] \<and>
            \<not> timestamp_too_old (now div 1000) ts"
  with assms show "status (fst (handler R secret now req)) \<noteq> 401"
    by (auto simp: handler_def computedSignature_spec Let_def js_def OK_def
          spec_signature_def split: option.splits payload.splits)
next
  fix i j :: nat
  assume "i < length (spec_signature R secret ts (req_body req)) \<and> j < 16"
  then have "(spec_signature R secret ts (req_body req))
                [i := flip_bit j (spec_signature R secret ts (req_body req) ! i)]
             \<noteq> spec_signature R secret ts (req_body req)"
    by (simp add: mutate_neq)
  with assms show "handler R secret now
              (req\<lparr>x_slack_signature :=
                 Some ((spec_signature R secret ts (req_body req))
                         [i := flip_bit j (spec_signature R secret ts (req_body req) ! i)])\<rparr>)
            = (Unauthorized, None)"
    by (auto simp: handler_def computedSignature_spec Let_def js_def)
qed

theorem signature_exact_witness:
  "status (fst (handler example_runtime (js ''secret'') 1700000100000 example_request)) \<noteq> 401 \<and>
   handler example_runtime (js ''secret'') 1700000100000
     (example_request\<lparr>x_slack_signature := Some (js ''v0=0afe'')\<rparr>) = (Unauthorized, None) \<and>
   handler example_runtime (js ''secret'') 1700000100000
     (example_request\<lparr>x_slack_signature :=
        Some ((js ''v0=0aff'')[6 := flip_bit 0 (js ''v0=0aff'' ! 6)])\<rparr>)
     = (Unauthorized, None)"
proof -
  have m: "req_method example_request = js ''POST''"
    and p: "pathname example_request = js ''/slack/events''"
    and t: "x_slack_request_timestamp example_request = Some (js ''1700000000'')"
    by (simp_all add: example_request_def)
  have b: "req_body example_request = js ''{}''" by (simp add: example_request_def)
  have fresh: "\<not> timestamp_too_old (1700000100000 div 1000) (js ''1700000000'')"
    by (simp add: timestamp_too_old_def parseInt_example)
  have ne: "js ''1700000000'' \<noteq> []" by (simp add: js_def)
  have s: "x_slack_signature example_request = Some (js ''v0=0aff'')"
    by (simp add: example_request_def)
  note th = signature_exact [OF m p t, of example_runtime "js ''secret''" 1700000100000,
      unfolded b example_sig]
  note th' = signature_exact [of "example_request\<lparr>x_slack_signature := Some (js ''v0=0afe'')\<rparr>"
      "js ''1700000000''" example_runtime "js ''secret''" 1700000100000]
  have 1: "status (fst (handler example_runtime (js ''secret'') 1700000100000 example_request))
             \<noteq> 401"
    using th s fresh ne by blast
  have 2: "handler example_runtime (js ''secret'') 1700000100000
     (example_request\<lparr>x_slack_signature := Some (js ''v0=0afe'')\<rparr>) = (Unauthorized, None)"
    using th' by (simp add: example_request_def example_sig) (simp add: js_def)
  have 3: "handler example_runtime (js ''secret'') 1700000100000
     (example_request\<lparr>x_slack_signature :=
        Some ((js ''v0=0aff'')[6 := flip_bit 0 (js ''v0=0aff'' ! 6)])\<rparr>)
     = (Unauthorized, None)"
    using th [THEN conjunct2, THEN conjunct2, rule_format, of 6 0] by (simp add: js_def)
  from 1 2 3 show ?thesis by blast
qed

text \<open>
  C3. A POST to the events endpoint that lacks the timestamp header or the signature
  header, or whose timestamp is a number more than 300 seconds away from the current
  time, is answered with status 401 and the body \<^verbatim>\<open>Unauthorized\<close>, and no call is made for
  it.
\<close>

theorem unauthorized_without_processing:
  assumes "req_method req = js ''POST''" and "pathname req = js ''/slack/events''"
    and "x_slack_request_timestamp req = None \<or> x_slack_signature req = None \<or>
         (\<exists>ts t. x_slack_request_timestamp req = Some ts \<and> parseInt ts = Some t \<and>
                  \<bar>now div 1000 - t\<bar> > 300)"
  shows "serve R C secret now req = (Unauthorized, []) \<and> status Unauthorized = 401 \<and>
         content Unauthorized = js ''Unauthorized''"
proof -
  have "handler R secret now req = (Unauthorized, None)"
    using assms
    by (auto simp: handler_def timestamp_too_old_def Let_def js_def split: option.splits)
  then show ?thesis
    by (simp add: serve_def Unauthorized_def)
qed

theorem unauthorized_without_processing_witness:
  "serve example_runtime example_collaborators (js ''secret'') 1700000301000 example_request
     = (Unauthorized, []) \<and>
   serve example_runtime example_collaborators (js ''secret'') 1700000100000
     (example_request\<lparr>x_slack_signature := None\<rparr>) = (Unauthorized, [])"
proof -
  have old: "\<bar>1700000301000 div 1000 - 1700000000\<bar> > (300 :: int)" by simp
  have 1: "serve example_runtime example_collaborators (js ''secret'') 1700000301000 example_request
     = (Unauthorized, [])"
    using unauthorized_without_processing [of example_request 1700000301000 example_runtime
        example_collaborators "js ''secret''"] parseInt_example old
    by (simp add: example_request_def)
  have 2: "serve example_runtime example_collaborators (js ''secret'') 1700000100000
     (example_request\<lparr>x_slack_signature := None\<rparr>) = (Unauthorized, [])"
    using unauthorized_without_processing [of "example_request\<lparr>x_slack_signature := None\<rparr>"
        1700000100000 example_runtime example_collaborators "js ''secret''"]
    by (simp add: example_request_def)
  from 1 2 show ?thesis by simp
qed

text \<open>
  C9. When \<^verbatim>\<open>parseInt\<close> of the timestamp header gives \<^verbatim>\<open>NaN\<close>, the replay-window check
  does not reject: the request is answered with 401 exactly when its signature header
  differs from the computed signature.
\<close>

theorem nan_timestamp_passes_guard:
  assumes "req_method req = js ''POST''" and "pathname req = js ''/slack/events''"
    and "x_slack_request_timestamp req = Some ts" and "ts \<noteq> []" and "parseInt ts = None"
    and "x_slack_signature req = Some sig" and "sig \<noteq> []"
  shows "\<not> timestamp_too_old (now div 1000) ts \<and>
         (status (fst (handler R secret now req)) = 401 \<longleftrightarrow>
            sig \<noteq> computedSignature R secret ts (req_body req))"
proof -
  have guard: "\<not> timestamp_too_old (now div 1000) ts"
    using assms by (simp add: timestamp_too_old_def)
  have "status (fst (handler R secret now req)) = 401 \<longleftrightarrow>
            sig \<noteq> computedSignature R secret ts (req_body req)"
    using assms guard
    by (auto simp: handler_def Let_def js_def OK_def Unauthorized_def
          split: option.splits payload.splits)
  with guard show ?thesis by simp
qed

theorem nan_timestamp_passes_guard_witness:
  "\<not> timestamp_too_old (1700000100000 div 1000) (js ''abc'') \<and>
   status (fst (handler example_runtime (js ''secret'') 1700000100000
      (example_request\<lparr>x_slack_request_timestamp := Some (js ''abc'')\<rparr>))) \<noteq> 401"
proof -
  have c: "computedSignature example_runtime (js ''secret'') (js ''abc'') (js ''{}'')
             = js ''v0=0aff''"
    by (simp add: computedSignature_def example_runtime_def padStart_def toString16.simps
          hex_digit_def js_def)
  show ?thesis
    using nan_timestamp_passes_guard
      [of "example_request\<lparr>x_slack_request_timestamp := Some (js ''abc'')\<rparr>"
        "js ''abc''" "js ''v0=0aff''" 1700000100000 example_runtime "js ''secret''"]
      parseInt_abc c
    by (simp add: example_request_def) (simp add: js_def)
qed

section \<open>The event orchestrator\<close>

lemma strip_flag_prefix: "prefix (js ''flag-'') r \<Longrightarrow> strip_flag r = drop 5 r"
  by (simp add: strip_flag_def lit_def eval_nat_numeral)

lemma two_tier_lookup:
  "detect_lang table r = (if prefix (js ''flag-'') r then table (drop 5 r) else table r)"
  "detect_lang table (js ''flag-jp'') = detect_lang table (js ''jp'')"
  by (simp_all add: detect_lang_def strip_flag_prefix) (simp add: js_def)

lemma undefined_no_call:
  "detect_lang (table_get C) (reaction e) = Undefined \<Longrightarrow> handleReactionAdded C e = []"
  by (simp add: handleReactionAdded_def translate_reaction_def no_lang_def)

lemma example_constructor:
  "translate_reaction example_collaborators (example_event\<lparr>reaction := js ''constructor''\<rparr>) =
     ([Conversations_replies (js ''C1'') (js ''1.0'') True,
       Conversations_replies (js ''C1'') (js ''1.0'') False], None)"
  by (simp add: translate_reaction_def example_collaborators_def example_event_def detect_lang_def
        table_get_def no_lang_def object_prototype_names_def falsy_def Let_def js_def)

text \<open>
  C8. The two tiers of the lookup are as the claim says (\<open>two_tier_lookup\<close>), and a lookup
  that gives \<^verbatim>\<open>undefined\<close> leads to no call (\<open>undefined_no_call\<close>). But a reaction without a
  table entry does not always lead to no action: the table of the example is an ordinary
  object with the one entry \<^verbatim>\<open>fr\<close>; for the reaction \<^verbatim>\<open>constructor\<close> it has no entry, the
  lookup finds the member of the prototype, the check \<^verbatim>\<open>!lang\<close> of line 69 lets it pass,
  and the handler fetches the message and the replies of the thread before line 150
  throws.
\<close>

theorem inherited_name_fetches:
  "allReactionToLang example_collaborators (js ''constructor'') = None \<and>
   handleReactionAdded example_collaborators (example_event\<lparr>reaction := js ''constructor''\<rparr>) =
     [Conversations_replies (js ''C1'') (js ''1.0'') True,
      Conversations_replies (js ''C1'') (js ''1.0'') False]"
proof -
  have "allReactionToLang example_collaborators (js ''constructor'') = None"
    by (simp add: example_collaborators_def js_def)
  then show ?thesis
    by (simp add: handleReactionAdded_def example_constructor)
qed

lemma already_posted_iff: "already_posted ms t \<longleftrightarrow> (\<exists>m \<in> set ms. msg_text m = Some t)"
  by (induction ms) auto

lemma translate_reaction_no_post:
  "translate_reaction C e = (calls, r) \<Longrightarrow> c \<in> set calls \<Longrightarrow> c \<noteq> Chat_postMessage ch t th"
  by (auto simp: translate_reaction_def Let_def
        split: if_splits option.splits list.splits lookup.splits)

text \<open>
  C7. When the processing of a reaction event has reached the duplicate check, and one
  of the replies fetched from the thread has a text equal to the restored translation,
  the handler makes no further call: it posts no message.
\<close>

theorem no_duplicate_post:
  assumes "translate_reaction C e = (calls, Some (replies, threadTs, translated))"
    and "messages replies = Some ms" and "m \<in> set ms" and "msg_text m = Some translated"
  shows "handleReactionAdded C e = calls \<and>
         (\<forall>c \<in> set (handleReactionAdded C e). \<forall>ch t th. c \<noteq> Chat_postMessage ch t th)"
proof -
  from assms have "already_posted ms translated"
    by (auto simp: already_posted_iff)
  with assms have eq: "handleReactionAdded C e = calls"
    by (simp add: handleReactionAdded_def post_translation_def)
  with assms(1) show ?thesis
    by (auto dest: translate_reaction_no_post)
qed

theorem no_duplicate_post_witness:
  "handleReactionAdded example_collaborators example_event =
     [Conversations_replies (js ''C1'') (js ''1.0'') True,
      Conversations_replies (js ''C1'') (js ''1.0'') False,
      Deepl_translate (js ''api-free'') (js ''Hello'') (js ''FR'')]"
  using no_duplicate_post [OF example_translate,
      of "[\<lparr>msg_text = Some (js ''Hello''), msg_thread_ts = None\<rparr>,
           \<lparr>msg_text = Some (js ''Bonjour''), msg_thread_ts = Some (js ''1.0'')\<rparr>]"
         "\<lparr>msg_text = Some (js ''Bonjour''), msg_thread_ts = Some (js ''1.0'')\<rparr>"]
  by simp

section \<open>Facts about the matchers\<close>

lemma dots_to_end_Nil [simp]: "dots_to_end []"
  by (simp add: dots_to_end_def)

lemma dots_to_end_Cons [simp]:
  "dots_to_end (c # s) \<longleftrightarrow> \<not> is_line_terminator c \<and> dots_to_end s"
  by (simp add: dots_to_end_def)

lemma dots_to_end_append [simp]:
  "dots_to_end (s @ t) \<longleftrightarrow> dots_to_end s \<and> dots_to_end t"
  by (auto simp: dots_to_end_def)

lemma dots_to_end_drop: "dots_to_end s \<Longrightarrow> dots_to_end (drop n s)"
  by (auto simp: dots_to_end_def dest: in_set_dropD)

lemma lazy_then_SomeD:
  "lazy_then k s = Some (g, r) \<Longrightarrow> dots_to_end g \<and> (\<exists>s'. s = g @ s' \<and> k s' = Some r)"
proof (induction s arbitrary: g)
  case Nil
  then show ?case by (auto split: option.splits)
next
  case (Cons c s)
  show ?case
  proof (cases "k (c # s)")
    case (Some r')
    with Cons.prems show ?thesis by auto
  next
    case None
    with Cons.prems obtain g' where nl: "\<not> is_line_terminator c"
      and rec: "lazy_then k s = Some (g', r)" and g: "g = c # g'"
      by (auto split: if_splits option.splits)
    from Cons.IH [OF rec] nl g show ?thesis by auto
  qed
qed

lemma lazy_then_first:
  "dots_to_end g \<Longrightarrow> (\<forall>j<length g. k (drop j g @ s') = None) \<Longrightarrow> k s' = Some r
     \<Longrightarrow> lazy_then k (g @ s') = Some (g, r)"
proof (induction g)
  case Nil
  then show ?case by (cases s') auto
next
  case (Cons c g)
  from Cons.prems(2) have here: "k ((c # g) @ s') = None" by fastforce
  have later: "\<forall>j<length g. k (drop j g @ s') = None"
  proof (intro allI impI)
    fix j assume "j < length g"
    with Cons.prems(2) have "k (drop (Suc j) (c # g) @ s') = None" by fastforce
    then show "k (drop j g @ s') = None" by simp
  qed
  from Cons.prems(1) have "dots_to_end g" and nl: "\<not> is_line_terminator c" by simp_all
  with Cons.IH later Cons.prems(3) have "lazy_then k (g @ s') = Some (g, r)" by simp
  with here nl show ?case by simp
qed

lemma replace_g_id: "search re s = None \<Longrightarrow> replace_g re f s = s"
  by (induction s) (auto split: option.splits)

lemma search_mono:
  "(\<And>t. re2 t = None \<Longrightarrow> re1 t = None) \<Longrightarrow> search re2 s = None \<Longrightarrow> search re1 s = None"
  by (induction s) (auto split: option.splits)

lemma lit_SomeD: "lit p s = Some r \<Longrightarrow> s = js p @ r"
  by (auto simp: lit_def js_def prefix_def split: if_splits)

lemma lit_append [simp]: "lit p (js p @ r) = Some r"
  by (simp add: lit_def js_def)

lemma lazy_gt: "dots_to_end w \<Longrightarrow> lazy_then (lit ''>'') (w @ 62 # v) \<noteq> None"
  by (induction w) (auto simp: lit_def js_def split: option.splits)

lemma re_bracket_gt: "dots_to_end w \<Longrightarrow> re_bracket (60 # w @ 62 # v) \<noteq> None"
  using lazy_gt [of w v] by (simp add: re_bracket_def lit_def js_def)

lemma bracket_emoji: "re_bracket t = None \<Longrightarrow> re_emoji_span t = None"
proof (rule ccontr)
  assume b: "re_bracket t = None" and "re_emoji_span t \<noteq> None"
  then obtain s1 where "lit ''<emoji>'' t = Some s1"
    by (auto simp: re_emoji_span_def split: option.splits)
  then have "t = 60 # [101, 109, 111, 106, 105] @ 62 # s1"
    by (auto dest!: lit_SomeD simp: js_def)
  moreover have "dots_to_end [101, 109, 111, 106, 105]"
    by (simp add: is_line_terminator_def)
  ultimately have "re_bracket t \<noteq> None"
    using re_bracket_gt by metis
  with b show False by simp
qed

lemma bracket_mrkdwn: "re_bracket t = None \<Longrightarrow> re_mrkdwn_span t = None"
proof (rule ccontr)
  assume b: "re_bracket t = None" and "re_mrkdwn_span t \<noteq> None"
  then obtain s1 where "lit ''<mrkdwn>'' t = Some s1"
    by (auto simp: re_mrkdwn_span_def split: option.splits)
  then have "t = 60 # [109, 114, 107, 100, 119, 110] @ 62 # s1"
    by (auto dest!: lit_SomeD simp: js_def)
  moreover have "dots_to_end [109, 114, 107, 100, 119, 110]"
    by (simp add: is_line_terminator_def)
  ultimately have "re_bracket t \<noteq> None"
    using re_bracket_gt by metis
  with b show False by simp
qed

lemma bracket_ignore: "re_bracket t = None \<Longrightarrow> re_ignore_span t = None"
proof (rule ccontr)
  assume b: "re_bracket t = None" and "re_ignore_span t \<noteq> None"
  then obtain s1 where "lit ''<ignore>'' t = Some s1"
    by (auto simp: re_ignore_span_def split: option.splits)
  then have "t = 60 # [105, 103, 110, 111, 114, 101] @ 62 # s1"
    by (auto dest!: lit_SomeD simp: js_def)
  moreover have "dots_to_end [105, 103, 110, 111, 114, 101]"
    by (simp add: is_line_terminator_def)
  ultimately have "re_bracket t \<noteq> None"
    using re_bracket_gt by metis
  with b show False by simp
qed

lemma re_anchor_SomeD:
  assumes "re_anchor t = Some (u, d, rest)"
  shows "t = js ''<a href=\"'' @ u @ js ''\">'' @ d @ js ''</a>'' @ rest \<and> dots_to_end u \<and> dots_to_end d"
proof -
  from assms obtain s1 where s1: "lit ''<a href=\"'' t = Some s1"
    and l1: "lazy_then anchor_tail s1 = Some (u, d, rest)"
    by (auto simp: re_anchor_def split: option.splits)
  from lazy_then_SomeD [OF l1] obtain s2 where u: "dots_to_end u" and s2: "s1 = u @ s2"
    and a: "anchor_tail s2 = Some (d, rest)" by auto
  from a obtain s3 where s3: "lit ''\">'' s2 = Some s3"
    and l2: "lazy_then (lit ''</a>'') s3 = Some (d, rest)"
    by (auto simp: anchor_tail_def split: option.splits)
  from lazy_then_SomeD [OF l2] obtain s4 where d: "dots_to_end d" and s4: "s3 = d @ s4"
    and e: "lit ''</a>'' s4 = Some rest" by auto
  from s1 s2 s3 s4 e u d show ?thesis
    by (auto dest!: lit_SomeD)
qed

lemma bracket_anchor: "re_bracket t = None \<Longrightarrow> re_anchor_span t = None"
proof (rule ccontr)
  assume b: "re_bracket t = None" and "re_anchor_span t \<noteq> None"
  then obtain u d rest where "re_anchor t = Some (u, d, rest)"
    by (auto simp: re_anchor_span_def split: option.splits)
  from re_anchor_SomeD [OF this]
  have t: "t = js ''<a href=\"'' @ u @ js ''\">'' @ d @ js ''</a>'' @ rest" and u: "dots_to_end u"
    by simp_all
  from t have "t = 60 # (js ''a href=\"'' @ u @ [34]) @ 62 # (d @ js ''</a>'' @ rest)"
    by (simp add: js_def)
  moreover from u have "dots_to_end (js ''a href=\"'' @ u @ [34])"
    by (simp add: js_def is_line_terminator_def)
  ultimately have "re_bracket t \<noteq> None"
    using re_bracket_gt by metis
  with b show False by simp
qed

section \<open>The markup round trip\<close>

text \<open>
  C1. A string in which neither \<^verbatim>\<open>/<(.*?)>/\<close> nor \<^verbatim>\<open>/:([a-z0-9_-]+):/\<close> matches anywhere
  comes back unchanged from protecting and then restoring.
\<close>

theorem plain_round_trip:
  assumes "search re_bracket s = None" and "search re_shortcode s = None"
  shows "translatedText (targetText (Some s)) = s"
proof -
  have p: "targetText (Some s) = s"
    using assms by (simp add: targetText_def replace_g_id)
  have 1: "replace_g re_emoji_span restore_emoji s = s"
    by (rule replace_g_id) (rule search_mono [OF bracket_emoji assms(1)])
  have 2: "replace_g re_mrkdwn_span restore_mrkdwn s = s"
    by (rule replace_g_id) (rule search_mono [OF bracket_mrkdwn assms(1)])
  have 3: "replace_g re_anchor_span restore_anchor s = s"
    by (rule replace_g_id) (rule search_mono [OF bracket_anchor assms(1)])
  have 4: "replace_g re_ignore_span restore_ignore s = s"
    by (rule replace_g_id) (rule search_mono [OF bracket_ignore assms(1)])
  show ?thesis
    by (simp add: p translatedText_def 1 2 3 4)
qed

lemma plain_example_bracket: "search re_bracket (js ''2 > 1 and 1 < 2, at 10:30 :)'') = None"
  by (simp add: regex_defs)

lemma plain_example_shortcode: "search re_shortcode (js ''2 > 1 and 1 < 2, at 10:30 :)'') = None"
  by (simp add: regex_defs)

theorem plain_round_trip_witness:
  "translatedText (targetText (Some (js ''2 > 1 and 1 < 2, at 10:30 :)''))) = js ''2 > 1 and 1 < 2, at 10:30 :)''"
  using plain_round_trip [OF plain_example_bracket plain_example_shortcode] .

text \<open>
  C4. The text \<^verbatim>\<open>Hello <@U123> see :smile: and <https://x.com|link>\<close> comes back
  unchanged from protecting and then restoring.
\<close>

theorem example_round_trip:
  "translatedText (targetText (Some (js ''Hello <@U123> see :smile: and <https://x.com|link>'')))
     = js ''Hello <@U123> see :smile: and <https://x.com|link>''"
  by (simp add: regex_defs)

subsection \<open>The rules of the protector\<close>

lemma lazy_bar_tail_opt:
  "dots_to_end x \<Longrightarrow> lazy_then bar_tail_opt x = Some (takeWhile (\<lambda>c. c \<noteq> 124) x, ())"
  by (induction x) (auto simp: bar_tail_opt_def)

lemma lazy_bar_tail:
  "dots_to_end x \<Longrightarrow> 124 \<in> set x \<Longrightarrow>
     lazy_then bar_tail x = Some (takeWhile (\<lambda>c. c \<noteq> 124) x, drop 1 (dropWhile (\<lambda>c. c \<noteq> 124) x))"
  by (induction x) (auto simp: bar_tail_def)

lemma lazy_bar_tail_None: "124 \<notin> set x \<Longrightarrow> lazy_then bar_tail x = None"
  by (induction x) (auto simp: bar_tail_def)

lemma lit_prefix: "lit p s \<noteq> None \<longleftrightarrow> prefix (js p) s"
  by (simp add: lit_def)

lemma lit_Some: "prefix (js p) s \<Longrightarrow> lit p s = Some (drop (length p) s)"
  by (simp add: lit_def)

lemma lit_None: "\<not> prefix (js p) s \<Longrightarrow> lit p s = None"
  by (simp add: lit_def)

lemma re_mention_eq:
  "dots_to_end p \<Longrightarrow>
     re_mention p = (if prefix (js ''#'') p \<or> prefix (js ''@'') p then Some p else None)"
  by (cases p) (auto simp: re_mention_def js_def)

lemma re_subteam_eq: "dots_to_end p \<Longrightarrow> re_subteam p = prefix (js ''!subteam'') p"
  by (auto simp: re_subteam_def lit_def dots_to_end_drop)

lemma re_date_eq:
  "dots_to_end p \<Longrightarrow> re_date p = (if prefix (js ''!date'') p then Some p else None)"
  by (auto simp: re_date_def lit_def dots_to_end_drop)

lemma re_special_eq: "dots_to_end p \<Longrightarrow> re_special p = prefix (js ''!'') p"
  by (auto simp: re_special_def lit_def dots_to_end_drop)

lemma re_special_name_eq:
  "dots_to_end p \<Longrightarrow> prefix (js ''!'') p \<Longrightarrow>
     re_special_name p = Some (takeWhile (\<lambda>c. c \<noteq> 124) (drop 1 p))"
  by (simp add: re_special_name_def lit_Some lazy_bar_tail_opt dots_to_end_drop)

lemma re_link_eq:
  "dots_to_end p \<Longrightarrow>
     re_link p = (if 124 \<in> set p
                  then Some (takeWhile (\<lambda>c. c \<noteq> 124) p, drop 1 (dropWhile (\<lambda>c. c \<noteq> 124) p))
                  else None)"
  by (simp add: re_link_def lazy_bar_tail lazy_bar_tail_None)

lemma lazy_lit_gt:
  "dots_to_end p \<Longrightarrow> 62 \<notin> set p \<Longrightarrow> lazy_then (lit ''>'') (p @ 62 # rest) = Some (p, rest)"
  by (induction p) (auto simp: lit_def js_def)

lemma re_special_name_total: "re_special m \<Longrightarrow> re_special_name m \<noteq> None"
  by (auto simp: re_special_def re_special_name_def lazy_bar_tail_opt split: option.splits)

lemma protect_payload_spec: "dots_to_end p \<Longrightarrow> protect_payload p = spec_protect_payload p"
  by (simp add: protect_payload_def spec_protect_payload_def re_mention_eq re_subteam_eq
        re_date_eq re_special_eq re_special_name_eq re_link_eq)

lemma re_bracket_token:
  "dots_to_end p \<Longrightarrow> 62 \<notin> set p \<Longrightarrow> re_bracket (js ''<'' @ p @ js ''>'' @ rest) = Some (p, rest)"
  using lazy_lit_gt [of p rest] by (simp add: re_bracket_def lit_def js_def)

subsection \<open>The anchor rule of the restorer\<close>

lemma no_early_match:
  assumes "c \<notin> set e" and "c \<notin> set q" and "e \<noteq> []"
  shows "\<not> prefix (q @ [c]) (e @ q @ c # rest)"
proof
  assume "prefix (q @ [c]) (e @ q @ c # rest)"
  then obtain z where z: "e @ q @ c # rest = (q @ [c]) @ z"
    by (auto simp: prefix_def)
  have "(e @ q @ c # rest) ! length q = ((q @ [c]) @ z) ! length q"
    using z by simp
  also have "\<dots> = c" by (simp add: nth_append)
  finally have c: "(e @ q @ c # rest) ! length q = c" .
  from assms(3) have lt: "length q < length (e @ q)" by (cases e) simp_all
  have "(e @ q @ c # rest) ! length q = (e @ q) ! length q"
    using lt nth_append [of "e @ q" "c # rest" "length q"] by simp
  with c have "c = (e @ q) ! length q" by simp
  with nth_mem [OF lt] have "c \<in> set (e @ q)" by simp
  with assms(1,2) show False by simp
qed

lemma lazy_then_last:
  assumes g: "dots_to_end g" and cg: "c \<notin> set g" and cq: "c \<notin> set q"
    and k: "\<And>s. k s \<noteq> None \<Longrightarrow> prefix (q @ [c]) s"
    and r: "k (q @ c # rest) = Some r"
  shows "lazy_then k (g @ q @ c # rest) = Some (g, r)"
proof -
  have "\<forall>j<length g. k (drop j g @ q @ c # rest) = None"
  proof (intro allI impI, rule ccontr)
    fix j assume j: "j < length g" and a: "k (drop j g @ q @ c # rest) \<noteq> None"
    from a have "prefix (q @ [c]) (drop j g @ q @ c # rest)" by (rule k)
    moreover from cg have "c \<notin> set (drop j g)" by (auto dest: in_set_dropD)
    moreover from j have "drop j g \<noteq> []" by simp
    ultimately show False using no_early_match [of c "drop j g" q rest] cq by simp
  qed
  then show ?thesis using lazy_then_first [of g k "q @ c # rest" r] g r by simp
qed

lemma lazy_close:
  assumes "dots_to_end g" and "c \<notin> set g" and "c \<notin> set q" and p: "js p = q @ [c]"
  shows "lazy_then (lit p) (g @ js p @ rest) = Some (g, rest)"
proof -
  have len: "length p = Suc (length q)"
    using arg_cong [OF p, of length] by (simp add: js_def)
  have k: "\<And>s. lit p s \<noteq> None \<Longrightarrow> prefix (q @ [c]) s"
    by (simp add: lit_def p split: if_splits)
  have r: "lit p (q @ c # rest) = Some rest"
    by (simp add: lit_def p len)
  have "lazy_then (lit p) (g @ q @ c # rest) = Some (g, rest)"
    using lazy_then_last [of g c q "lit p" rest rest] assms(1,2,3) k r by simp
  then show ?thesis
    by (simp add: p)
qed

lemma lazy_close_ignore:
  "dots_to_end g \<Longrightarrow> 62 \<notin> set g \<Longrightarrow>
     lazy_then (lit ''</ignore>'') (g @ js ''</ignore>'' @ rest) = Some (g, rest)"
  by (rule lazy_close [where q = "js ''</ignore''"]) (simp_all add: js_def)

lemma anchor_example_code:
  "translatedText (js ''<a href=\"u\"><mrkdwn>/a</mrkdwn>x</a>'') = js ''<u|>x</a>''"
  by (simp add: regex_defs)

lemma anchor_example_spec:
  "spec_restore_anchor_first (js ''<a href=\"u\"><mrkdwn>/a</mrkdwn>x</a>'') = js ''<u|</a>x>''"
  by (simp add: spec_restore_anchor_first_def regex_defs)

text \<open>
  C6, as stated, does not hold: the anchor pass is the third of four, after the emoji
  and mrkdwn spans have been unwrapped. On the anchor below, whose content holds an
  mrkdwn span, the program and the anchor-first restorer of the specification differ.
\<close>

theorem anchor_not_first:
  "translatedText (js ''<a href=\"u\"><mrkdwn>/a</mrkdwn>x</a>'') = js ''<u|>x</a>'' \<and>
   spec_restore_anchor_first (js ''<a href=\"u\"><mrkdwn>/a</mrkdwn>x</a>'') = js ''<u|</a>x>'' \<and>
   translatedText (js ''<a href=\"u\"><mrkdwn>/a</mrkdwn>x</a>'')
     \<noteq> spec_restore_anchor_first (js ''<a href=\"u\"><mrkdwn>/a</mrkdwn>x</a>'')"
proof -
  have "js ''<u|>x</a>'' \<noteq> js ''<u|</a>x>''" by (simp add: js_def)
  then show ?thesis
    by (simp only: anchor_example_code anchor_example_spec) simp
qed

lemma lazy_then_earlier:
  "lazy_then k s = Some (g, r) \<Longrightarrow> \<forall>j<length g. k (drop j s) = None"
proof (induction s arbitrary: g)
  case Nil
  then show ?case by (auto split: option.splits)
next
  case (Cons c s)
  show ?case
  proof (cases "k (c # s)")
    case (Some r')
    with Cons.prems show ?thesis by auto
  next
    case None
    with Cons.prems obtain g' where rec: "lazy_then k s = Some (g', r)" and g: "g = c # g'"
      by (auto split: if_splits option.splits)
    show ?thesis
    proof (intro allI impI)
      fix j assume j: "j < length g"
      show "k (drop j (c # s)) = None"
      proof (cases j)
        case 0
        with None show ?thesis by simp
      next
        case (Suc i)
        with j g have "i < length g'" by simp
        with Cons.IH [OF rec] have "k (drop i s) = None" by simp
        with Suc show ?thesis by simp
      qed
    qed
  qed
qed

lemma lit_mono: "lit p x \<noteq> None \<Longrightarrow> lit p (x @ t) \<noteq> None"
  by (auto simp: lit_def split: if_splits)

lemma lazy_then_mono:
  assumes k: "\<And>x t. k x \<noteq> None \<Longrightarrow> k (x @ t) \<noteq> None"
  shows "lazy_then k x \<noteq> None \<Longrightarrow> lazy_then k (x @ t) \<noteq> None"
proof (induction x)
  case Nil
  then have "k [] \<noteq> None" by (auto split: option.splits)
  from k [OF this, of t] show ?case by (cases t) auto
next
  case (Cons c x)
  show ?case
  proof (cases "k (c # x)")
    case (Some r)
    then have "k ((c # x) @ t) \<noteq> None" using k by blast
    then show ?thesis by auto
  next
    case None
    with Cons.prems have nl: "\<not> is_line_terminator c" and "lazy_then k x \<noteq> None"
      by (auto split: if_splits option.splits)
    with Cons.IH have "lazy_then k (x @ t) \<noteq> None" by simp
    with nl show ?thesis by (auto split: option.splits)
  qed
qed

lemma anchor_tail_mono: "anchor_tail x \<noteq> None \<Longrightarrow> anchor_tail (x @ t) \<noteq> None"
proof -
  assume a: "anchor_tail x \<noteq> None"
  then obtain s1 where s1: "lit ''\">'' x = Some s1" and l: "lazy_then (lit ''</a>'') s1 \<noteq> None"
    by (auto simp: anchor_tail_def split: option.splits)
  from s1 have x: "x = js ''\">'' @ s1" by (rule lit_SomeD)
  have "lazy_then (lit ''</a>'') (s1 @ t) \<noteq> None"
    using l by (rule lazy_then_mono [rotated]) (rule lit_mono)
  then show ?thesis
    by (simp add: anchor_tail_def x)
qed

lemma lazy_lit_cut:
  assumes "lazy_then (lit p) s = Some (g, rest)"
  shows "s = g @ js p @ rest \<and> lazy_then (lit p) (g @ js p) = Some (g, [])"
proof -
  from lazy_then_SomeD [OF assms] obtain s' where g: "dots_to_end g" and s: "s = g @ s'"
    and l: "lit p s' = Some rest" by auto
  from l have s': "s' = js p @ rest" by (rule lit_SomeD)
  have "\<forall>j<length g. lit p (drop j g @ js p) = None"
  proof (intro allI impI, rule ccontr)
    fix j assume j: "j < length g" and a: "lit p (drop j g @ js p) \<noteq> None"
    from a have "lit p ((drop j g @ js p) @ rest) \<noteq> None" by (rule lit_mono)
    moreover from lazy_then_earlier [OF assms] j have "lit p (drop j s) = None" by simp
    ultimately show False using j by (simp add: s s')
  qed
  moreover have "lit p (js p) = Some []" using lit_append [of p "[]"] by simp
  ultimately have "lazy_then (lit p) (g @ js p) = Some (g, [])"
    using lazy_then_first [of g "lit p" "js p" "[]"] g by simp
  with s s' show ?thesis by simp
qed

lemma re_anchor_cut:
  assumes "re_anchor s = Some (u, d, rest)"
  shows "re_anchor (js ''<a href=\"'' @ u @ js ''\">'' @ d @ js ''</a>'') = Some (u, d, [])"
proof -
  from assms obtain s1 where s1: "lit ''<a href=\"'' s = Some s1"
    and l1: "lazy_then anchor_tail s1 = Some (u, d, rest)"
    by (auto simp: re_anchor_def split: option.splits)
  from lazy_then_SomeD [OF l1] obtain s2 where u: "dots_to_end u" and s2: "s1 = u @ s2"
    and a: "anchor_tail s2 = Some (d, rest)" by auto
  from a obtain s3 where s3: "lit ''\">'' s2 = Some s3"
    and l2: "lazy_then (lit ''</a>'') s3 = Some (d, rest)"
    by (auto simp: anchor_tail_def split: option.splits)
  from s3 have s2': "s2 = js ''\">'' @ s3" by (rule lit_SomeD)
  from lazy_lit_cut [OF l2] have s3': "s3 = d @ js ''</a>'' @ rest"
    and cut: "lazy_then (lit ''</a>'') (d @ js ''</a>'') = Some (d, [])" by simp_all
  have t: "anchor_tail (js ''\">'' @ d @ js ''</a>'') = Some (d, [])"
    using cut by (simp add: anchor_tail_def)
  have "\<forall>j<length u. anchor_tail (drop j u @ js ''\">'' @ d @ js ''</a>'') = None"
  proof (intro allI impI, rule ccontr)
    fix j assume j: "j < length u"
      and a: "anchor_tail (drop j u @ js ''\">'' @ d @ js ''</a>'') \<noteq> None"
    from a have "anchor_tail ((drop j u @ js ''\">'' @ d @ js ''</a>'') @ rest) \<noteq> None"
      by (rule anchor_tail_mono)
    moreover from lazy_then_earlier [OF l1] j have "anchor_tail (drop j s1) = None" by simp
    ultimately show False using j by (simp add: s2 s2' s3')
  qed
  then have "lazy_then anchor_tail (u @ js ''\">'' @ d @ js ''</a>'') = Some (u, d, [])"
    using lazy_then_first [of u anchor_tail "js ''\">'' @ d @ js ''</a>''" "(d, [])"] u t by simp
  then show ?thesis
    by (simp add: re_anchor_def)
qed

lemma restore_anchor_match:
  assumes "re_anchor s = Some (u, d, rest)"
  shows "restore_anchor (js ''<a href=\"'' @ u @ js ''\">'' @ d @ js ''</a>'')
           = js ''<'' @ u @ js ''|'' @ d @ js ''>''"
proof -
  have "js ''<a href=\"'' @ u @ js ''\">'' @ d @ js ''</a>''
          = 60 # js ''a href=\"'' @ u @ js ''\">'' @ d @ js ''</a>''"
    by (simp add: js_def)
  moreover from re_anchor_cut [OF assms]
  have "search re_anchor (60 # js ''a href=\"'' @ u @ js ''\">'' @ d @ js ''</a>'') = Some (u, d, [])"
    by (simp add: js_def)
  ultimately show ?thesis
    by (simp add: restore_anchor_def)
qed

lemma anchor_pass_match:
  assumes "re_anchor s = Some (u, d, rest)"
  shows "s = js ''<a href=\"'' @ u @ js ''\">'' @ d @ js ''</a>'' @ rest \<and>
         replace_g re_anchor_span restore_anchor s
           = js ''<'' @ u @ js ''|'' @ d @ js ''>'' @ replace_g re_anchor_span restore_anchor rest"
proof -
  from re_anchor_SomeD [OF assms]
  have s: "s = js ''<a href=\"'' @ u @ js ''\">'' @ d @ js ''</a>'' @ rest" by simp
  then have take: "take (length s - length rest) s = js ''<a href=\"'' @ u @ js ''\">'' @ d @ js ''</a>''"
    by simp
  have span: "re_anchor_span s = Some (js ''<a href=\"'' @ u @ js ''\">'' @ d @ js ''</a>'', rest)"
    using assms take by (simp add: re_anchor_span_def)
  from s obtain c cs where cs: "s = c # cs" by (cases s) (simp_all add: js_def)
  from s have len: "length rest < length s" by (simp add: js_def)
  have "replace_g re_anchor_span restore_anchor (c # cs)
          = restore_anchor (js ''<a href=\"'' @ u @ js ''\">'' @ d @ js ''</a>'')
            @ replace_g re_anchor_span restore_anchor rest"
    using span len by (simp add: cs)
  with restore_anchor_match [OF assms] cs s show ?thesis by simp
qed

lemma anchor_pass_skip:
  "re_anchor (c # cs) = None \<Longrightarrow>
     replace_g re_anchor_span restore_anchor (c # cs) = c # replace_g re_anchor_span restore_anchor cs"
  by (simp add: re_anchor_span_def)

text \<open>
  C6, amended. The anchor rule is one pass over the text in which the emoji and the mrkdwn
  spans have already been unwrapped, and the ignore spans are unwrapped in its result.
  Scanning from the left, the pass takes each match of the anchor expression as a whole:
  the opening \<^verbatim>\<open><a href="\<close>, the address, \<^verbatim>\<open>">\<close>, the content and the closing \<^verbatim>\<open></a>\<close>, and
  puts the address, a bar and the content between angle brackets; it goes on after the
  match, and where the expression does not match it keeps the code unit and moves on by
  one. In the third part \<open>a\<close> is the unwrapped text before the match and \<open>a'\<close> what the
  pass has made of it.
\<close>

theorem anchor_pass_scan:
  "(re_anchor s = Some (u, d, rest) \<longrightarrow>
      s = js ''<a href=\"'' @ u @ js ''\">'' @ d @ js ''</a>'' @ rest \<and>
      replace_g re_anchor_span restore_anchor s
        = js ''<'' @ u @ js ''|'' @ d @ js ''>'' @ replace_g re_anchor_span restore_anchor rest) \<and>
   (re_anchor (c # cs) = None \<longrightarrow>
      replace_g re_anchor_span restore_anchor (c # cs)
        = c # replace_g re_anchor_span restore_anchor cs) \<and>
   (replace_g re_mrkdwn_span restore_mrkdwn (replace_g re_emoji_span restore_emoji t) = a @ s' \<and>
    replace_g re_anchor_span restore_anchor (a @ s')
      = a' @ replace_g re_anchor_span restore_anchor s' \<and>
    re_anchor s' = Some (u', d', rest') \<longrightarrow>
      translatedText t =
        replace_g re_ignore_span restore_ignore
          (a' @ js ''<'' @ u' @ js ''|'' @ d' @ js ''>''
           @ replace_g re_anchor_span restore_anchor rest'))"
  using anchor_pass_match [of s u d rest] anchor_pass_skip [of c cs]
    anchor_pass_match [of s' u' d' rest']
  by (simp add: translatedText_def)

lemma nested_match:
  "re_anchor (js ''<a href=\"a\">b<a href=\"c\">d</a>'') = Some (js ''a'', js ''b<a href=\"c\">d'', [])"
  by (simp add: regex_defs)

lemma gt_match:
  "re_anchor (js ''<a href=\"u\">a>b</a> ok'') = Some (js ''u'', js ''a>b'', js '' ok'')"
  by (simp add: regex_defs)

lemma space_no_match: "re_anchor (32 # js ''ok'') = None"
  by (simp add: regex_defs)

lemma ok_pass: "replace_g re_anchor_span restore_anchor (js ''ok'') = js ''ok''"
  by (simp add: regex_defs)

lemma unwrapped_text:
  "replace_g re_mrkdwn_span restore_mrkdwn
      (replace_g re_emoji_span restore_emoji (js ''see <a href=\"u\"><mrkdwn>/a</mrkdwn>x</a>''))
   = js ''see '' @ js ''<a href=\"u\"></a>x</a>''"
  by (simp add: regex_defs)

lemma unwrapped_arrives:
  "replace_g re_anchor_span restore_anchor (js ''see '' @ js ''<a href=\"u\"></a>x</a>'')
     = js ''see '' @ replace_g re_anchor_span restore_anchor (js ''<a href=\"u\"></a>x</a>'')"
  by (simp add: regex_defs)

lemma unwrapped_match:
  "re_anchor (js ''<a href=\"u\"></a>x</a>'') = Some (js ''u'', [], js ''x</a>'')"
  by (simp add: regex_defs)

lemma after_anchor:
  "replace_g re_ignore_span restore_ignore
     (js ''see '' @ js ''<'' @ js ''u'' @ js ''|'' @ [] @ js ''>''
      @ replace_g re_anchor_span restore_anchor (js ''x</a>''))
   = js ''see <u|>x</a>''"
  by (simp add: regex_defs)

theorem anchor_pass_scan_witness:
  "replace_g re_anchor_span restore_anchor (js ''<a href=\"a\">b<a href=\"c\">d</a>'')
     = js ''<a|b<a href=\"c\">d>'' \<and>
   replace_g re_anchor_span restore_anchor (js ''<a href=\"u\">a>b</a> ok'') = js ''<u|a>b> ok'' \<and>
   translatedText (js ''see <a href=\"u\"><mrkdwn>/a</mrkdwn>x</a>'') = js ''see <u|>x</a>''"
proof -
  have e: "replace_g re_anchor_span restore_anchor [] = []"
    by (simp add: regex_defs)
  have r1: "js ''<'' @ js ''a'' @ js ''|'' @ js ''b<a href=\"c\">d'' @ js ''>'' @ []
              = js ''<a|b<a href=\"c\">d>''"
    by (simp add: js_def)
  have "replace_g re_anchor_span restore_anchor (js ''<a href=\"a\">b<a href=\"c\">d</a>'')
          = js ''<'' @ js ''a'' @ js ''|'' @ js ''b<a href=\"c\">d'' @ js ''>''
            @ replace_g re_anchor_span restore_anchor []"
    using anchor_pass_scan [of "js ''<a href=\"a\">b<a href=\"c\">d</a>''" "js ''a''"
        "js ''b<a href=\"c\">d''" "[]" 32 "js ''ok''"]
      nested_match
    by blast
  then have 1: "replace_g re_anchor_span restore_anchor (js ''<a href=\"a\">b<a href=\"c\">d</a>'')
     = js ''<a|b<a href=\"c\">d>''"
    by (simp only: e r1)
  have "replace_g re_anchor_span restore_anchor (32 # js ''ok'')
          = 32 # replace_g re_anchor_span restore_anchor (js ''ok'')"
    using anchor_pass_scan [of "[]" "[]" "[]" "[]" 32 "js ''ok''"]
      space_no_match
    by blast
  moreover have "js '' ok'' = 32 # js ''ok''" by (simp add: js_def)
  ultimately have sp: "replace_g re_anchor_span restore_anchor (js '' ok'') = js '' ok''"
    by (simp only: ok_pass)
  have r2: "js ''<'' @ js ''u'' @ js ''|'' @ js ''a>b'' @ js ''>'' @ js '' ok'' = js ''<u|a>b> ok''"
    by (simp add: js_def)
  have "replace_g re_anchor_span restore_anchor (js ''<a href=\"u\">a>b</a> ok'')
          = js ''<'' @ js ''u'' @ js ''|'' @ js ''a>b'' @ js ''>''
            @ replace_g re_anchor_span restore_anchor (js '' ok'')"
    using anchor_pass_scan [of "js ''<a href=\"u\">a>b</a> ok''" "js ''u''" "js ''a>b''" "js '' ok''"
        32 "js ''ok''"]
      gt_match
    by blast
  then have 2: "replace_g re_anchor_span restore_anchor (js ''<a href=\"u\">a>b</a> ok'')
                  = js ''<u|a>b> ok''"
    by (simp only: sp r2)
  have "translatedText (js ''see <a href=\"u\"><mrkdwn>/a</mrkdwn>x</a>'')
          = replace_g re_ignore_span restore_ignore
              (js ''see '' @ js ''<'' @ js ''u'' @ js ''|'' @ [] @ js ''>''
               @ replace_g re_anchor_span restore_anchor (js ''x</a>''))"
    using anchor_pass_scan [of "[]" "[]" "[]" "[]" 32 "js ''ok''"
        "js ''see <a href=\"u\"><mrkdwn>/a</mrkdwn>x</a>''" "js ''see ''"
        "js ''<a href=\"u\"></a>x</a>''" "js ''see ''" "js ''u''" "[]" "js ''x</a>''"]
      unwrapped_text unwrapped_arrives unwrapped_match
    by blast
  then have 3: "translatedText (js ''see <a href=\"u\"><mrkdwn>/a</mrkdwn>x</a>'') = js ''see <u|>x</a>''"
    by (simp only: after_anchor)
  from 1 2 3 show ?thesis by blast
qed

subsection \<open>Special mentions\<close>

lemma re_shortcode_head: "c \<noteq> 58 \<Longrightarrow> re_shortcode (c # s) = None"
  by (simp add: re_shortcode_def lit_def js_def)

lemma shortcode_then_append:
  assumes "shortcode_then '':'' s = None"
  shows "shortcode_then '':'' (s @ 60 # t) = None"
proof (cases "\<forall>c \<in> set s. is_shortcode_char c")
  case True
  then have "takeWhile is_shortcode_char (s @ 60 # t) = s"
    and "dropWhile is_shortcode_char (s @ 60 # t) = 60 # t"
    by (simp_all add: is_shortcode_char_def)
  then show ?thesis
    by (simp add: shortcode_then_def lit_def js_def)
next
  case False
  then obtain y where y: "y \<in> set s" "\<not> is_shortcode_char y" by blast
  have tw: "takeWhile is_shortcode_char (s @ 60 # t) = takeWhile is_shortcode_char s"
    using y by (rule takeWhile_append1)
  have dw: "dropWhile is_shortcode_char (s @ 60 # t) = dropWhile is_shortcode_char s @ 60 # t"
    using y by (rule dropWhile_append1)
  from False have ne: "dropWhile is_shortcode_char s \<noteq> []" by auto
  then obtain a r where ar: "dropWhile is_shortcode_char s = a # r"
    by (cases "dropWhile is_shortcode_char s") auto
  from assms show ?thesis
    by (auto simp: shortcode_then_def tw dw ar lit_def js_def Let_def split: if_splits option.splits)
qed

lemma re_shortcode_append:
  "re_shortcode (c # s) = None \<Longrightarrow> re_shortcode (c # s @ 60 # t) = None"
  using shortcode_then_append [of s t]
  by (auto simp: re_shortcode_def lit_def js_def split: if_splits option.splits)

lemma search_shortcode_append:
  "search re_shortcode x = None \<Longrightarrow>
     search re_shortcode (x @ 60 # t) = search re_shortcode (60 # t)"
proof (induction x)
  case Nil
  then show ?case by simp
next
  case (Cons c x)
  from Cons.prems have h: "re_shortcode (c # x) = None" and r: "search re_shortcode x = None"
    by (auto split: option.splits)
  from re_shortcode_append [OF h] Cons.IH [OF r] show ?case by simp
qed

lemma re_shortcode_Nil: "re_shortcode [] = None"
  by (simp add: re_shortcode_def lit_def js_def)

lemma search_shortcode_wrapped:
  assumes "search re_shortcode x = None"
  shows "search re_shortcode (js ''<ignore>@'' @ x @ js ''</ignore>'') = None"
proof -
  have tail: "search re_shortcode (60 # js ''/ignore>'') = None"
    by (simp add: js_def re_shortcode_head re_shortcode_Nil)
  have "search re_shortcode (x @ 60 # js ''/ignore>'') = None"
    using search_shortcode_append [OF assms, of "js ''/ignore>''"] tail by simp
  then show ?thesis
    by (simp add: js_def re_shortcode_head)
qed

text \<open>Two code units that stand next to each other in a string.\<close>

lemma pair_Cons:
  "(a, b) \<in> set (zip (c # s) s) \<longleftrightarrow>
     (s \<noteq> [] \<and> c = a \<and> hd s = b) \<or> (a, b) \<in> set (zip s (tl s))"
  by (cases s) auto

lemma pair_append:
  "(a, b) \<in> set (zip (u @ v) (tl (u @ v))) \<longleftrightarrow>
     (a, b) \<in> set (zip u (tl u)) \<or> (a, b) \<in> set (zip v (tl v)) \<or>
     (u \<noteq> [] \<and> v \<noteq> [] \<and> last u = a \<and> hd v = b)"
proof (induction u)
  case Nil
  then show ?case by simp
next
  case (Cons c u)
  show ?case
  proof (cases u)
    case Nil
    then show ?thesis by (cases v) auto
  next
    case (Cons d u')
    with Cons.IH show ?thesis by auto
  qed
qed

lemma pair_second: "(a, b) \<in> set (zip s (tl s)) \<Longrightarrow> b \<in> set s"
  by (cases s) (auto dest: set_zip_rightD)

lemma search_no_pair:
  assumes "\<And>t. re t \<noteq> None \<Longrightarrow> (a, b) \<in> set (zip t (tl t))"
    and "(a, b) \<notin> set (zip s (tl s))"
  shows "search re s = None"
  using assms(2)
proof (induction s)
  case Nil
  show ?case using assms(1) [of "[]"] by (cases "re []") auto
next
  case (Cons c s)
  from Cons.prems have "re (c # s) = None" using assms(1) [of "c # s"] by blast
  moreover from Cons.prems have "(a, b) \<notin> set (zip s (tl s))" by (simp add: pair_Cons)
  ultimately show ?case using Cons.IH by simp
qed

lemma emoji_span_pair: "re_emoji_span t \<noteq> None \<Longrightarrow> (105, 62) \<in> set (zip t (tl t))"
  by (auto simp: re_emoji_span_def js_def dest!: lit_SomeD split: option.splits)

lemma mrkdwn_span_pair: "re_mrkdwn_span t \<noteq> None \<Longrightarrow> (110, 62) \<in> set (zip t (tl t))"
  by (auto simp: re_mrkdwn_span_def js_def dest!: lit_SomeD split: option.splits)

lemma anchor_span_pair:
  assumes "re_anchor_span t \<noteq> None"
  shows "(34, 62) \<in> set (zip t (tl t))"
proof -
  from assms obtain u d rest where "re_anchor t = Some (u, d, rest)"
    by (auto simp: re_anchor_span_def split: option.splits)
  from re_anchor_SomeD [OF this]
  have "t = (js ''<a href=\"'' @ u) @ ([34, 62] @ d @ js ''</a>'' @ rest)"
    by (simp add: js_def)
  then show ?thesis
    by (simp only: pair_append) simp
qed

lemma wrapped_pairs:
  assumes "62 \<notin> set x" and "a \<noteq> 101"
  shows "(a, 62) \<notin> set (zip (js ''<ignore>@'' @ x @ js ''</ignore>'') (tl (js ''<ignore>@'' @ x @ js ''</ignore>'')))"
proof -
  have x: "(a, 62) \<notin> set (zip x (tl x))"
    using assms(1) by (auto dest: pair_second)
  have hd: "x \<noteq> [] \<Longrightarrow> hd x \<noteq> 62"
    using assms(1) by (cases x) auto
  have 1: "(a, 62) \<notin> set (zip (js ''<ignore>@'') (tl (js ''<ignore>@'')))"
    using assms(2) by (simp add: js_def)
  have 2: "(a, 62) \<notin> set (zip (js ''</ignore>'') (tl (js ''</ignore>'')))"
    using assms(2) by (simp add: js_def)
  have 3: "(a, 62) \<notin> set (zip (x @ js ''</ignore>'') (tl (x @ js ''</ignore>'')))"
    using x 2 by (simp add: pair_append) (simp add: js_def)
  have 4: "hd (x @ js ''</ignore>'') \<noteq> 62"
    using hd by (cases x) (simp_all add: js_def)
  show ?thesis
    using 1 3 4 by (simp add: pair_append)
qed

lemma restore_wrapped:
  assumes "dots_to_end x" and "62 \<notin> set x"
  shows "translatedText (js ''<ignore>@'' @ x @ js ''</ignore>'') = js ''@'' @ x"
proof -
  let ?T = "js ''<ignore>@'' @ x @ js ''</ignore>''"
  have 1: "replace_g re_emoji_span restore_emoji ?T = ?T"
    by (rule replace_g_id, rule search_no_pair [OF emoji_span_pair])
       (simp_all add: wrapped_pairs [OF assms(2)])
  have 2: "replace_g re_mrkdwn_span restore_mrkdwn ?T = ?T"
    by (rule replace_g_id, rule search_no_pair [OF mrkdwn_span_pair])
       (simp_all add: wrapped_pairs [OF assms(2)])
  have 3: "replace_g re_anchor_span restore_anchor ?T = ?T"
    by (rule replace_g_id, rule search_no_pair [OF anchor_span_pair])
       (simp_all add: wrapped_pairs [OF assms(2)])
  have g: "dots_to_end (64 # x)" "62 \<notin> set (64 # x)"
    using assms by (simp_all add: is_line_terminator_def)
  have "lazy_then (lit ''</ignore>'') ((64 # x) @ js ''</ignore>'' @ []) = Some (64 # x, [])"
    by (rule lazy_close_ignore [OF g])
  then have m: "re_ignore_span (60 # js ''ignore>@'' @ x @ js ''</ignore>'') = Some (64 # x, [])"
    by (simp add: re_ignore_span_def lit_def js_def)
  have e: "re_ignore_span [] = None"
    by (simp add: re_ignore_span_def lit_def js_def)
  have "replace_g re_ignore_span restore_ignore (60 # js ''ignore>@'' @ x @ js ''</ignore>'') = 64 # x"
    by (simp add: m e restore_ignore_def)
  then have 4: "replace_g re_ignore_span restore_ignore ?T = js ''@'' @ x"
    by (simp add: js_def)
  show ?thesis
    by (simp only: translatedText_def 1 2 3 4)
qed

lemma protect_special:
  assumes "dots_to_end x" and "62 \<notin> set x" and "124 \<notin> set x"
    and "\<not> prefix (js ''subteam'') x" and "\<not> prefix (js ''date'') x"
    and "search re_shortcode x = None"
  shows "targetText (Some (js ''<!'' @ x @ js ''>'')) = js ''<ignore>@'' @ x @ js ''</ignore>''"
proof -
  have p: "dots_to_end (33 # x)" "62 \<notin> set (33 # x)"
    using assms(1,2) by (simp_all add: is_line_terminator_def)
  have m: "re_bracket (60 # 33 # x @ [62]) = Some (33 # x, [])"
    using re_bracket_token [OF p, of "[]"] by (simp add: js_def)
  have e: "re_bracket [] = None"
    by (simp add: re_bracket_def lit_def js_def)
  have tw: "takeWhile (\<lambda>c. c \<noteq> 124) x = x"
    using assms(3) by (simp add: takeWhile_eq_all_conv) metis
  have "spec_protect_payload (33 # x) = js ''<ignore>@'' @ x @ js ''</ignore>''"
    using assms(4,5) by (simp add: spec_protect_payload_def js_def tw)
  with protect_payload_spec [OF p(1)]
  have "protect_payload (33 # x) = js ''<ignore>@'' @ x @ js ''</ignore>''" by simp
  then have b: "replace_g re_bracket protect_payload (60 # 33 # x @ [62])
                 = js ''<ignore>@'' @ x @ js ''</ignore>''"
    by (simp add: m e)
  have "replace_g re_shortcode protect_emoji (js ''<ignore>@'' @ x @ js ''</ignore>'')
          = js ''<ignore>@'' @ x @ js ''</ignore>''"
    by (rule replace_g_id) (rule search_shortcode_wrapped [OF assms(6)])
  with b have "replace_g re_shortcode protect_emoji
                 (replace_g re_bracket protect_payload (60 # 33 # x @ [62]))
               = js ''<ignore>@'' @ x @ js ''</ignore>''"
    by simp
  moreover have "js ''<!'' @ x @ js ''>'' = 60 # 33 # x @ [62]" by (simp add: js_def)
  ultimately show ?thesis
    by (simp add: targetText_def Let_def)
qed

text \<open>
  C10, amended. For a payload \<open>x\<close> that holds no line terminator, no \<^verbatim>\<open>>\<close>, no bar and no
  emoji shortcode token and does not begin with \<^verbatim>\<open>subteam\<close> or \<^verbatim>\<open>date\<close>, the token
  \<^verbatim>\<open><!x>\<close> is protected as an ignore span of \<^verbatim>\<open>@\<close> and \<open>x\<close>, which is restored to \<^verbatim>\<open>@\<close> and
  \<open>x\<close>: the round trip does not give the token back.
\<close>

theorem special_mention_flattened:
  assumes "dots_to_end x" and "62 \<notin> set x" and "124 \<notin> set x"
    and "\<not> prefix (js ''subteam'') x" and "\<not> prefix (js ''date'') x"
    and "search re_shortcode x = None"
  shows "targetText (Some (js ''<!'' @ x @ js ''>'')) = js ''<ignore>@'' @ x @ js ''</ignore>'' \<and>
         translatedText (js ''<ignore>@'' @ x @ js ''</ignore>'') = js ''@'' @ x \<and>
         translatedText (targetText (Some (js ''<!'' @ x @ js ''>''))) \<noteq> js ''<!'' @ x @ js ''>''"
proof -
  have 1: "targetText (Some (js ''<!'' @ x @ js ''>'')) = js ''<ignore>@'' @ x @ js ''</ignore>''"
    using assms by (rule protect_special)
  have 2: "translatedText (js ''<ignore>@'' @ x @ js ''</ignore>'') = js ''@'' @ x"
    using assms(1,2) by (rule restore_wrapped)
  have "js ''@'' @ x \<noteq> js ''<!'' @ x @ js ''>''" by (simp add: js_def)
  with 1 2 show ?thesis by simp
qed

lemma here_ok:
  "dots_to_end (js ''here'')" "62 \<notin> set (js ''here'')" "124 \<notin> set (js ''here'')"
  "\<not> prefix (js ''subteam'') (js ''here'')" "\<not> prefix (js ''date'') (js ''here'')"
  by (simp_all add: js_def is_line_terminator_def)

lemma here_no_shortcode: "search re_shortcode (js ''here'') = None"
  by (simp add: regex_defs)

theorem special_mention_flattened_witness:
  "targetText (Some (js ''<!'' @ js ''here'' @ js ''>'')) = js ''<ignore>@'' @ js ''here'' @ js ''</ignore>'' \<and>
   translatedText (js ''<ignore>@'' @ js ''here'' @ js ''</ignore>'') = js ''@'' @ js ''here'' \<and>
   translatedText (targetText (Some (js ''<!'' @ js ''here'' @ js ''>''))) \<noteq> js ''<!'' @ js ''here'' @ js ''>''"
  using special_mention_flattened [OF here_ok here_no_shortcode] .

text \<open>
  C10, as stated, does not hold: a payload made of an emoji shortcode, or one with a
  \<^verbatim>\<open>>\<close> in it, meets the conditions of the claim and is not protected as the ignore span
  of \<^verbatim>\<open>@\<close> and the payload.
\<close>

lemma colon_a_ok:
  "dots_to_end (js '':a:'')" "124 \<notin> set (js '':a:'')"
  "\<not> prefix (js ''subteam'') (js '':a:'')" "\<not> prefix (js ''date'') (js '':a:'')"
  "\<not> prefix (js ''#'') (js '':a:'')" "\<not> prefix (js ''@'') (js '':a:'')"
  by (simp_all add: js_def is_line_terminator_def)

lemma colon_a_protect:
  "targetText (Some (js ''<!'' @ js '':a:'' @ js ''>'')) = js ''<ignore>@<emoji>a</emoji></ignore>''"
  by (simp add: regex_defs)

lemma a_gt_b_ok:
  "dots_to_end (js ''a>b'')" "124 \<notin> set (js ''a>b'')"
  "\<not> prefix (js ''subteam'') (js ''a>b'')" "\<not> prefix (js ''date'') (js ''a>b'')"
  "\<not> prefix (js ''#'') (js ''a>b'')" "\<not> prefix (js ''@'') (js ''a>b'')"
  by (simp_all add: js_def is_line_terminator_def)

lemma a_gt_b_protect:
  "targetText (Some (js ''<!'' @ js ''a>b'' @ js ''>'')) = js ''<ignore>@a</ignore>b>''"
  by (simp add: regex_defs)

theorem special_mention_counterexample:
  "dots_to_end (js '':a:'') \<and> 124 \<notin> set (js '':a:'') \<and>
   \<not> prefix (js ''subteam'') (js '':a:'') \<and> \<not> prefix (js ''date'') (js '':a:'') \<and>
   \<not> prefix (js ''#'') (js '':a:'') \<and> \<not> prefix (js ''@'') (js '':a:'') \<and>
   targetText (Some (js ''<!'' @ js '':a:'' @ js ''>''))
     \<noteq> js ''<ignore>@'' @ js '':a:'' @ js ''</ignore>'' \<and>
   dots_to_end (js ''a>b'') \<and> 124 \<notin> set (js ''a>b'') \<and>
   \<not> prefix (js ''subteam'') (js ''a>b'') \<and> \<not> prefix (js ''date'') (js ''a>b'') \<and>
   \<not> prefix (js ''#'') (js ''a>b'') \<and> \<not> prefix (js ''@'') (js ''a>b'') \<and>
   targetText (Some (js ''<!'' @ js ''a>b'' @ js ''>''))
     \<noteq> js ''<ignore>@'' @ js ''a>b'' @ js ''</ignore>''"
proof -
  have 1: "js ''<ignore>@<emoji>a</emoji></ignore>'' \<noteq> js ''<ignore>@'' @ js '':a:'' @ js ''</ignore>''"
    by (simp add: js_def)
  have 2: "js ''<ignore>@a</ignore>b>'' \<noteq> js ''<ignore>@'' @ js ''a>b'' @ js ''</ignore>''"
    by (simp add: js_def)
  show ?thesis
    using colon_a_ok a_gt_b_ok 1 2 by (simp only: colon_a_protect a_gt_b_protect) simp
qed

subsection \<open>The protector on a token\<close>





























end
